theory Spec2Isabelle
  imports Complex_Main "HOL-Library.Sublist" "HOL-Library.Word"
begin

section \<open>Numeric values of the notebooks\<close>

text \<open>
  The rows of the tables are numpy arrays of 64-bit values (\<open>np.append\<close> of the label
  promotes the pixels), and the techniques compute on them in 64 bits. A value is modelled
  as a real number, one of the two infinities, or NaN. Arithmetic on finite values is
  exact real arithmetic: the rounding of 64-bit operations, overflow, underflow and the
  sign of zero are not modelled (the single zero divides like IEEE's positive zero). The
  special values follow IEEE 754, which is what numpy computes with its default error
  settings: a division by zero or a logarithm of a non-positive number gives a warning and
  an infinity or NaN, never an exception. The two extrema of the corpus are numpy scalars
  of the type of the images; an operation between these two scalars is done in that type,
  and is modelled as such for technique 3 on 16-bit and on single-precision images.
\<close>

datatype npfloat = Fin real | PInf | NInf | NaN

text \<open>Python exceptions that the modelled code can raise, and the error taxonomy of the
  specification (\<open>DomainError\<close>, \<open>ConfigError\<close>, \<open>ExternalClassifierError\<close>,
  \<open>InputFormatError\<close>), which the source never constructs itself.\<close>

datatype error =
    ValueError | NameError | IndexError | AxisError | EmptyDataError | FileNotFoundError
  | DomainError | ConfigError | InputFormatError | ExternalClassifierError


fun np_add :: "npfloat \<Rightarrow> npfloat \<Rightarrow> npfloat" where
  "np_add NaN y = NaN"
| "np_add x NaN = NaN"
| "np_add (Fin a) (Fin b) = Fin (a + b)"
| "np_add (Fin a) PInf = PInf"
| "np_add (Fin a) NInf = NInf"
| "np_add PInf NInf = NaN"
| "np_add PInf y = PInf"
| "np_add NInf PInf = NaN"
| "np_add NInf y = NInf"

fun np_sub :: "npfloat \<Rightarrow> npfloat \<Rightarrow> npfloat" where
  "np_sub NaN y = NaN"
| "np_sub x NaN = NaN"
| "np_sub (Fin a) (Fin b) = Fin (a - b)"
| "np_sub (Fin a) PInf = NInf"
| "np_sub (Fin a) NInf = PInf"
| "np_sub PInf PInf = NaN"
| "np_sub PInf y = PInf"
| "np_sub NInf NInf = NaN"
| "np_sub NInf y = NInf"

fun np_div :: "npfloat \<Rightarrow> npfloat \<Rightarrow> npfloat" where
  "np_div NaN y = NaN"
| "np_div x NaN = NaN"
| "np_div (Fin a) (Fin b) =
     (if b = 0 then (if a = 0 then NaN else if 0 < a then PInf else NInf)
      else Fin (a / b))"
| "np_div (Fin a) PInf = Fin 0"
| "np_div (Fin a) NInf = Fin 0"
| "np_div PInf (Fin b) = (if 0 \<le> b then PInf else NInf)"
| "np_div NInf (Fin b) = (if 0 \<le> b then NInf else PInf)"
| "np_div PInf y = NaN"
| "np_div NInf y = NaN"

fun np_log10 :: "npfloat \<Rightarrow> npfloat" where
  "np_log10 (Fin a) = (if 0 < a then Fin (log 10 a) else if a = 0 then NInf else NaN)"
| "np_log10 PInf = PInf"
| "np_log10 NInf = NaN"
| "np_log10 NaN = NaN"

fun np_less :: "npfloat \<Rightarrow> npfloat \<Rightarrow> bool" where
  "np_less NaN y = False"
| "np_less x NaN = False"
| "np_less (Fin a) (Fin b) = (a < b)"
| "np_less x PInf = (x \<noteq> PInf)"
| "np_less NInf y = (y \<noteq> NInf)"
| "np_less x y = False"

text \<open>\<open>np.minimum\<close> and \<open>np.maximum\<close> of two values: a NaN on either side wins.\<close>

fun np_minimum :: "npfloat \<Rightarrow> npfloat \<Rightarrow> npfloat" where
  "np_minimum NaN y = NaN"
| "np_minimum x NaN = NaN"
| "np_minimum x y = (if np_less y x then y else x)"

fun np_maximum :: "npfloat \<Rightarrow> npfloat \<Rightarrow> npfloat" where
  "np_maximum NaN y = NaN"
| "np_maximum x NaN = NaN"
| "np_maximum x y = (if np_less x y then y else x)"

text \<open>\<open>np.min\<close>/\<open>np.amin\<close> and \<open>np.max\<close> of a one-dimensional array: a reduction, which
  raises \<open>ValueError\<close> on an array of size zero.\<close>

definition np_amin :: "npfloat list \<Rightarrow> error + npfloat" where
  "np_amin xs = (case xs of [] \<Rightarrow> Inl ValueError | x # r \<Rightarrow> Inr (foldl np_minimum x r))"

definition np_amax :: "npfloat list \<Rightarrow> error + npfloat" where
  "np_amax xs = (case xs of [] \<Rightarrow> Inl ValueError | x # r \<Rightarrow> Inr (foldl np_maximum x r))"

section \<open>The normalization engine (data\_normalization.ipynb)\<close>

text \<open>The two module-level variables \<open>min_pixel_all\<close> and \<open>max_pixel_all\<close> that
  \<open>norm_3\<close>, \<open>norm_4\<close> and \<open>norm_5\<close> read are passed as a record of their
  values. \<open>norm_3\<close> below takes their difference exactly, which is the source on
  extrema that are 64-bit floats, rounding aside; the same line on extrema of the other
  image types follows the list of techniques.\<close>

record stats =
  min_pixel_all :: npfloat
  max_pixel_all :: npfloat

definition norm_1 :: "npfloat list \<Rightarrow> error + npfloat list" where
  "norm_1 data =
     (let data_log = map np_log10 data in
      case np_amin data_log of
        Inl e \<Rightarrow> Inl e
      | Inr min_log_data \<Rightarrow> Inr (map (\<lambda>v. np_sub v min_log_data) data_log))"

definition norm_2 :: "npfloat list \<Rightarrow> error + npfloat list" where
  "norm_2 data =
     (case np_amin data of
        Inl e \<Rightarrow> Inl e
      | Inr min_data \<Rightarrow>
         (case np_amax data of
            Inl e \<Rightarrow> Inl e
          | Inr max_data \<Rightarrow>
              Inr (map (\<lambda>v. np_div (np_sub v min_data) (np_sub max_data min_data)) data)))"

definition norm_3 :: "stats \<Rightarrow> npfloat list \<Rightarrow> error + npfloat list" where
  "norm_3 st data =
     Inr (map (\<lambda>v. np_div (np_sub v (min_pixel_all st))
                          (np_sub (max_pixel_all st) (min_pixel_all st))) data)"

definition norm_4 :: "stats \<Rightarrow> npfloat list \<Rightarrow> error + npfloat list" where
  "norm_4 st data =
     (case np_amin data of
        Inl e \<Rightarrow> Inl e
      | Inr min_data \<Rightarrow>
          (let data_min_subtracted = map (\<lambda>v. np_sub v min_data) data
           in Inr (map (\<lambda>v. np_div v (max_pixel_all st)) data_min_subtracted)))"

definition norm_5 :: "stats \<Rightarrow> npfloat list \<Rightarrow> error + npfloat list" where
  "norm_5 st data =
     (let log_data = map np_log10 data;
          log_max_pixel = np_log10 (max_pixel_all st)
      in case np_amin log_data of
           Inl e \<Rightarrow> Inl e
         | Inr min_data \<Rightarrow>
             (let data_min_subtracted = map (\<lambda>v. np_sub v min_data) log_data
              in Inr (map (\<lambda>v. np_div v log_max_pixel) data_min_subtracted)))"

text \<open>The list \<open>techniques = [norm_1, norm_2, norm_3, norm_4, norm_5]\<close>.\<close>

definition techniques :: "stats \<Rightarrow> (npfloat list \<Rightarrow> error + npfloat list) list" where
  "techniques st = [norm_1, norm_2, norm_3 st, norm_4 st, norm_5 st]"

subsection \<open>Technique 3 on extrema of other types\<close>

text \<open>
  \<open>min_pixel_all\<close> and \<open>max_pixel_all\<close> are numpy scalars of the type of the
  images: \<open>np.min\<close> of a cutout returns a scalar of the cutout's type, and \<open>np.min\<close> of the
  list of these scalars keeps it. The rows of the table are 64-bit (\<open>np.append\<close> of the
  label promotes them), and an operation between a row and a scalar is done in 64 bits;
  but \<open>max_pixel_all - min_pixel_all\<close> is an operation between two scalars and is done
  in their own type. \<open>norm_3\<close> above is the function on extrema that are 64-bit floats.
  The next two definitions are the same line of the source on extrema of two other types.

  On 16-bit integer images the extrema are \<open>np.int16\<close>: their difference is a 16-bit
  integer and wraps around.
\<close>

definition norm_3_int16 :: "16 word \<Rightarrow> 16 word \<Rightarrow> npfloat list \<Rightarrow> error + npfloat list" where
  "norm_3_int16 mn mx data =
     Inr (map (\<lambda>v. np_div (np_sub v (Fin (real_of_int (sint mn))))
                          (Fin (real_of_int (sint (mx - mn))))) data)"

text \<open>
  On single-precision images, which the ZTF cutouts are, the extrema are \<open>np.float32\<close>:
  their difference is rounded to single precision, to the nearest value with 24
  significant bits, ties to the even one, with the exponent range of IEEE 754 binary32.
\<close>

definition round_half_even :: "real \<Rightarrow> int" where
  "round_half_even q =
     (let f = \<lfloor>q\<rfloor>; d = q - of_int f
      in if d < 1/2 then f else if 1/2 < d then f + 1 else if even f then f else f + 1)"

definition float32 :: "real \<Rightarrow> npfloat" where
  "float32 x =
     (if x = 0 then Fin 0
      else
        (let e = max \<lfloor>log 2 \<bar>x\<bar>\<rfloor> (- 126);
             ulp = 2 powr (of_int e - 23);
             y = of_int (round_half_even (x / ulp)) * ulp
         in if 2 ^ 128 \<le> \<bar>y\<bar> then (if 0 < x then PInf else NInf) else Fin y))"

definition float32_sub :: "npfloat \<Rightarrow> npfloat \<Rightarrow> npfloat" where
  "float32_sub a b = (case np_sub a b of Fin d \<Rightarrow> float32 d | PInf \<Rightarrow> PInf | NInf \<Rightarrow> NInf | NaN \<Rightarrow> NaN)"

definition norm_3_float32 :: "stats \<Rightarrow> npfloat list \<Rightarrow> error + npfloat list" where
  "norm_3_float32 st data =
     Inr (map (\<lambda>v. np_div (np_sub v (min_pixel_all st))
                          (float32_sub (max_pixel_all st) (min_pixel_all st))) data)"

section \<open>Data frames and CSV artifacts\<close>

text \<open>A pandas data frame of floats is the list of its rows. All rows of a frame have
  the same width: appending a row aligns the columns and fills the missing cells with NaN.\<close>

type_synonym frame = "npfloat list list"

definition width :: "frame \<Rightarrow> nat" where
  "width df = (case df of [] \<Rightarrow> 0 | r # _ \<Rightarrow> length r)"

definition pad :: "nat \<Rightarrow> npfloat list \<Rightarrow> npfloat list" where
  "pad w r = r @ replicate (w - length r) NaN"

text \<open>\<open>df.append([row], ignore_index=True)\<close>\<close>

definition df_append :: "frame \<Rightarrow> npfloat list \<Rightarrow> frame" where
  "df_append df r = (let w = max (width df) (length r) in map (pad w) df @ [pad w r])"

text \<open>
  A CSV file is the list of its lines, each line the list of its fields. A field is
  modelled by the value it denotes: printing and parsing a float are not modelled, and
  files are rectangular, as \<open>to_csv\<close> writes them.
  \<open>to_csv(name, header=False, index=False)\<close> writes one line per row and nothing else.
  \<open>pd.read_csv(name)\<close> is called with its default \<open>header='infer'\<close>: the first line of
  the file gives the column names and the data rows start at the second line; a file
  with no line raises \<open>EmptyDataError\<close>.
\<close>

type_synonym csv_file = "npfloat list list"

definition to_csv :: "frame \<Rightarrow> csv_file" where
  "to_csv df = df"

record loaded =
  columns :: "npfloat list"
  rows :: frame

definition read_csv :: "csv_file \<Rightarrow> error + loaded" where
  "read_csv file =
     (case file of
        [] \<Rightarrow> Inl EmptyDataError
      | header # lines \<Rightarrow> Inr \<lparr>columns = header, rows = lines\<rparr>)"

text \<open>\<open>data.iloc[:, 0].values\<close> (an \<open>IndexError\<close> on a frame without columns) and
  \<open>data.iloc[:, 1:].values\<close>\<close>

definition truth_labels_of :: "loaded \<Rightarrow> error + npfloat list" where
  "truth_labels_of data = (if columns data = [] then Inl IndexError else Inr (map hd (rows data)))"

definition image_data_of :: "loaded \<Rightarrow> frame" where
  "image_data_of data = map tl (rows data)"

section \<open>The corpus loader and the statistics pass\<close>

text \<open>\<open>str.startswith\<close>\<close>

definition startswith :: "string \<Rightarrow> string \<Rightarrow> bool" where
  "startswith s p = (take (length p) s = p)"

text \<open>\<open>str.endswith\<close>\<close>

definition endswith :: "string \<Rightarrow> string \<Rightarrow> bool" where
  "endswith s p = (length p \<le> length s \<and> drop (length s - length p) s = p)"

text \<open>
  The first cell of the notebook goes through the names of the directory, keeps those
  that end with \<open>.fits\<close> and counts the galaxies and the stars among them by the prefixes
  \<open>gal\<close> and \<open>star\<close>. The state of the loop is \<open>(cutout_files, gals, stars)\<close>.
\<close>

fun listing_loop :: "string list \<times> nat \<times> nat \<Rightarrow> string list \<Rightarrow> string list \<times> nat \<times> nat" where
  "listing_loop (cutout_files, gals, stars) [] = (cutout_files, gals, stars)"
| "listing_loop (cutout_files, gals, stars) (file # rest) =
     (if endswith file ''.fits'' then
        (if startswith file ''gal'' then listing_loop (cutout_files @ [file], gals + 1, stars) rest
         else if startswith file ''star'' then listing_loop (cutout_files @ [file], gals, stars + 1) rest
         else listing_loop (cutout_files @ [file], gals, stars) rest)
      else listing_loop (cutout_files, gals, stars) rest)"

definition list_cutouts :: "string list \<Rightarrow> string list \<times> nat \<times> nat" where
  "list_cutouts listdir = listing_loop ([], 0, 0) listdir"

text \<open>
  The state of the flatten-and-label loop. \<open>obj_id\<close> is a notebook variable that the
  loop assigns only under the two prefix tests, so it is unbound (\<open>None\<close>) until a
  file name matches and keeps its last value when a name matches neither prefix.
\<close>

record loader_state =
  obj_id :: "int option"
  min_pixel :: "npfloat list"
  max_pixel :: "npfloat list"
  gal_star :: frame

definition loader_init :: loader_state where
  "loader_init = \<lparr>obj_id = None, min_pixel = [], max_pixel = [], gal_star = []\<rparr>"

text \<open>One iteration of the loop, for a file name and the pixel grid that
  \<open>fits.getdata\<close> returned for it. \<open>image.flatten()\<close> is row-major.\<close>

definition load_one :: "loader_state \<Rightarrow> string \<times> npfloat list list \<Rightarrow> error + loader_state" where
  "load_one s fi =
     (let file = fst fi; image = snd fi;
          s1 = (if startswith file ''star'' then s\<lparr>obj_id := Some 0\<rparr> else s);
          s2 = (if startswith file ''galaxy'' then s1\<lparr>obj_id := Some 1\<rparr> else s1);
          data_flattened = concat image
      in case np_amin data_flattened of
           Inl e \<Rightarrow> Inl e
         | Inr mn \<Rightarrow>
            (case np_amax data_flattened of
               Inl e \<Rightarrow> Inl e
             | Inr mx \<Rightarrow>
                (case obj_id s2 of
                   None \<Rightarrow> Inl NameError
                 | Some l \<Rightarrow>
                     Inr (s2\<lparr>min_pixel := min_pixel s2 @ [mn],
                              max_pixel := max_pixel s2 @ [mx],
                              gal_star := df_append (gal_star s2)
                                            (Fin (of_int l) # data_flattened)\<rparr>))))"

fun load_all :: "loader_state \<Rightarrow> (string \<times> npfloat list list) list \<Rightarrow> error + loader_state" where
  "load_all s [] = Inr s"
| "load_all s (fi # cutout_files) =
     (case load_one s fi of Inl e \<Rightarrow> Inl e | Inr s' \<Rightarrow> load_all s' cutout_files)"

definition loader :: "(string \<times> npfloat list list) list \<Rightarrow> error + loader_state" where
  "loader cutout_files = load_all loader_init cutout_files"

text \<open>\<open>min_pixel_all = np.min(min_pixel)\<close>, \<open>max_pixel_all = np.max(max_pixel)\<close>\<close>

definition corpus_stats :: "loader_state \<Rightarrow> error + stats" where
  "corpus_stats s =
     (case np_amin (min_pixel s) of
        Inl e \<Rightarrow> Inl e
      | Inr mn \<Rightarrow>
         (case np_amax (max_pixel s) of
            Inl e \<Rightarrow> Inl e
          | Inr mx \<Rightarrow> Inr \<lparr>min_pixel_all = mn, max_pixel_all = mx\<rparr>))"

section \<open>Applying the techniques and writing the artifacts\<close>

text \<open>The inner loop over \<open>gal_star.iterrows()\<close>: every row is split into its first cell
  and the rest, the rest goes through the technique, and the two are appended to
  \<open>gal_star_norm\<close>. Nothing inspects the technique's result.\<close>

fun norm_rows ::
  "(npfloat list \<Rightarrow> error + npfloat list) \<Rightarrow> frame \<Rightarrow> frame \<Rightarrow> error + frame" where
  "norm_rows technique gal_star_norm [] = Inr gal_star_norm"
| "norm_rows technique gal_star_norm (row # rest) =
     (let raw_data = drop 1 row; obj_id = take 1 row
      in case technique raw_data of
           Inl e \<Rightarrow> Inl e
         | Inr norm_data \<Rightarrow>
             norm_rows technique (df_append gal_star_norm (obj_id @ norm_data)) rest)"

definition apply_technique ::
  "(npfloat list \<Rightarrow> error + npfloat list) \<Rightarrow> frame \<Rightarrow> error + frame" where
  "apply_technique technique df = norm_rows technique [] df"

text \<open>\<open>str(num+1)\<close> for the file name.\<close>

fun str_nat :: "nat \<Rightarrow> string" where
  "str_nat n =
     (if n < 10 then [''0123456789'' ! n]
      else str_nat (n div 10) @ [''0123456789'' ! (n mod 10)])"

definition artifact_name :: "nat \<Rightarrow> string" where
  "artifact_name num = ''norm_'' @ str_nat (num + 1) @ ''_image_data.csv''"

text \<open>The outer loop over \<open>enumerate(techniques)\<close>. The file system is a map from file
  names to files; an exception leaves the files written so far.\<close>

fun technique_loop ::
  "nat \<Rightarrow> (npfloat list \<Rightarrow> error + npfloat list) list \<Rightarrow> frame
     \<Rightarrow> (string \<rightharpoonup> csv_file) \<Rightarrow> (string \<rightharpoonup> csv_file) \<times> error option" where
  "technique_loop num [] df fs = (fs, None)"
| "technique_loop num (technique # rest) df fs =
     (case apply_technique technique df of
        Inl e \<Rightarrow> (fs, Some e)
      | Inr gal_star_norm \<Rightarrow>
          technique_loop (num + 1) rest df
            (fs(artifact_name num \<mapsto> to_csv gal_star_norm)))"

text \<open>The normalization notebook, run from top to bottom on the shuffled list of
  cutouts.\<close>

definition normalization_notebook ::
  "(string \<times> npfloat list list) list \<Rightarrow> (string \<rightharpoonup> csv_file)
     \<Rightarrow> (string \<rightharpoonup> csv_file) \<times> error option" where
  "normalization_notebook cutout_files fs =
     (case loader cutout_files of
        Inl e \<Rightarrow> (fs, Some e)
      | Inr s \<Rightarrow>
         (let fs1 = fs(''raw_image_data.csv'' \<mapsto> to_csv (gal_star s))
          in case corpus_stats s of
               Inl e \<Rightarrow> (fs1, Some e)
             | Inr st \<Rightarrow> technique_loop 0 (techniques st) (gal_star s) fs1))"

section \<open>The classification notebook (star\_gal\_MuyGPs\_classification.ipynb)\<close>

text \<open>\<open>pd.read_csv(name)\<close> on the file system.\<close>

definition load_table :: "(string \<rightharpoonup> csv_file) \<Rightarrow> string \<Rightarrow> error + loaded" where
  "load_table fs name = (case fs name of None \<Rightarrow> Inl FileNotFoundError | Some file \<Rightarrow> read_csv file)"

text \<open>\<open>generate_onehot_value\<close>: the loop appends for a 0 and for a 1 and has no
  \<open>else\<close> branch.\<close>

fun onehot_loop :: "real list list \<Rightarrow> npfloat list \<Rightarrow> real list list" where
  "onehot_loop onehot [] = onehot"
| "onehot_loop onehot (val # values) =
     (if val = Fin 0 then onehot_loop (onehot @ [[1, -1]]) values
      else if val = Fin 1 then onehot_loop (onehot @ [[-1, 1]]) values
      else onehot_loop onehot values)"

definition generate_onehot_value :: "npfloat list \<Rightarrow> real list list" where
  "generate_onehot_value values = onehot_loop [] values"

fun np_mul :: "npfloat \<Rightarrow> npfloat \<Rightarrow> npfloat" where
  "np_mul NaN y = NaN"
| "np_mul x NaN = NaN"
| "np_mul (Fin a) (Fin b) = Fin (a * b)"
| "np_mul (Fin a) PInf = (if a = 0 then NaN else if 0 < a then PInf else NInf)"
| "np_mul (Fin a) NInf = (if a = 0 then NaN else if 0 < a then NInf else PInf)"
| "np_mul PInf (Fin b) = (if b = 0 then NaN else if 0 < b then PInf else NInf)"
| "np_mul NInf (Fin b) = (if b = 0 then NaN else if 0 < b then NInf else PInf)"
| "np_mul PInf PInf = PInf"
| "np_mul PInf NInf = NInf"
| "np_mul NInf PInf = NInf"
| "np_mul NInf NInf = PInf"

text \<open>\<open>np.argmax\<close> of one row: the first position of the maximum (of the first NaN, if
  there is one); \<open>ValueError\<close> on an empty row.\<close>

fun first_index :: "'a list \<Rightarrow> 'a \<Rightarrow> nat" where
  "first_index [] y = 0"
| "first_index (x # xs) y = (if x = y then 0 else Suc (first_index xs y))"

definition np_argmax :: "npfloat list \<Rightarrow> error + nat" where
  "np_argmax row = (case np_amax row of Inl e \<Rightarrow> Inl e | Inr m \<Rightarrow> Inr (first_index row m))"

fun argmax_axis1 :: "npfloat list list \<Rightarrow> error + nat list" where
  "argmax_axis1 [] = Inr []"
| "argmax_axis1 (row # rest) =
     (case np_argmax row of
        Inl e \<Rightarrow> Inl e
      | Inr i \<Rightarrow> (case argmax_axis1 rest of Inl e \<Rightarrow> Inl e | Inr is \<Rightarrow> Inr (i # is)))"

text \<open>\<open>np.sum(predicted_labels == truth)\<close> on two one-dimensional arrays: elementwise
  when the lengths agree, broadcast when one of them has length one; otherwise the
  comparison of the numpy release the notebook was written for gives the scalar \<open>False\<close>
  (with a deprecation warning), whose sum is 0.\<close>

definition count_equal :: "nat list \<Rightarrow> nat list \<Rightarrow> nat" where
  "count_equal p t =
     (if length p = length t then length (filter (\<lambda>(a, b). a = b) (zip p t))
      else if length t = 1 then length (filter (\<lambda>a. a = hd t) p)
      else if length p = 1 then length (filter (\<lambda>b. hd p = b) t)
      else 0)"

text \<open>The two external collaborators of a trial and the random source, as parameters:
  sklearn's \<open>train_test_split(image_data, truth_labels, test_size, random_state)\<close>, which
  returns \<open>(X_train, X_test, y_train, y_test)\<close>; MuyGPyS's
  \<open>do_classify(test_features, train_features, train_labels, nn_count)\<close>, of whose result
  only \<open>surrogate_predictions\<close> is used; and \<open>random.randint(0, 10000)\<close>, whose
  \<open>n\<close>-th draw is \<open>randint n\<close>. An exception raised inside a collaborator is an
  \<open>Inl\<close>.\<close>

record externals =
  train_test_split ::
    "frame \<Rightarrow> npfloat list \<Rightarrow> real \<Rightarrow> nat \<Rightarrow> error + (frame \<times> frame \<times> npfloat list \<times> npfloat list)"
  do_classify :: "frame \<Rightarrow> frame \<Rightarrow> real list list \<Rightarrow> nat \<Rightarrow> error + frame"
  randint :: "nat \<Rightarrow> nat"

definition run_classifier ::
  "externals \<Rightarrow> frame \<Rightarrow> npfloat list \<Rightarrow> real \<Rightarrow> nat \<Rightarrow> error + npfloat" where
  "run_classifier ext image_data truth_labels test_size state =
     (case train_test_split ext image_data truth_labels test_size state of
        Inl e \<Rightarrow> Inl e
      | Inr (X_train, X_test, y_train, y_test) \<Rightarrow>
         (let onehot_train = generate_onehot_value y_train;
              onehot_test = generate_onehot_value y_test
          in case do_classify ext X_test X_train onehot_train 30 of
               Inl e \<Rightarrow> Inl e
             | Inr surrogate_predictions \<Rightarrow>
                (case argmax_axis1 surrogate_predictions of
                   Inl e \<Rightarrow> Inl e
                 | Inr predicted_labels \<Rightarrow>
                    (case (if onehot_test = [] then Inl AxisError
                           else argmax_axis1 (map (map Fin) onehot_test)) of
                       Inl e \<Rightarrow> Inl e
                     | Inr truth \<Rightarrow>
                         Inr (np_mul
                                (np_div (Fin (real (count_equal predicted_labels truth)))
                                        (Fin (real (length predicted_labels))))
                                (Fin 100))))))"

subsection \<open>The evaluation sweep\<close>

definition test_size_values :: "real list" where
  "test_size_values = [0.2, 0.25, 0.33, 0.4, 0.5, 0.75]"

definition num_runs :: nat where
  "num_runs = 3"

text \<open>\<open>np.average\<close> of a list of floats (NaN for the empty list).\<close>

definition np_average :: "npfloat list \<Rightarrow> npfloat" where
  "np_average xs = np_div (foldl np_add (Fin 0) xs) (Fin (real (length xs)))"

text \<open>
  The variables that the sweep updates: the table \<open>accuracies\<close> (a list of named
  columns), the lists \<open>all_acc_dataset\<close> and \<open>acc\<close>, the number of draws taken from
  the random source, and the count of the progress bar. An exception stops the cell and
  leaves the variables as they are at that moment.
\<close>

record sweep_state =
  accuracies :: "(string \<times> npfloat list) list"
  all_acc_dataset :: "npfloat list"
  acc :: "npfloat list"
  rng :: nat
  pbar :: nat

text \<open>The loop \<open>while idx <= num_runs\<close>. The call of \<open>run_classifier\<close> is not inside
  any \<open>try\<close>.\<close>

function run_loop ::
  "externals \<Rightarrow> nat \<Rightarrow> frame \<Rightarrow> npfloat list \<Rightarrow> real \<Rightarrow> nat \<Rightarrow> sweep_state
     \<Rightarrow> sweep_state \<times> error option" where
  "run_loop ext runs image_data truth_labels test_size idx s =
     (if idx \<le> runs then
        (case run_classifier ext image_data truth_labels test_size (randint ext (rng s)) of
           Inl e \<Rightarrow> (s\<lparr>rng := rng s + 1\<rparr>, Some e)
         | Inr accuracy \<Rightarrow>
             run_loop ext runs image_data truth_labels test_size (idx + 1)
               (s\<lparr>rng := rng s + 1, acc := acc s @ [accuracy], pbar := pbar s + 1\<rparr>))
      else (s, None))"
  by pat_completeness auto
termination
  by (relation "measure (\<lambda>(ext, runs, image_data, truth_labels, test_size, idx, s). runs + 1 - idx)")
     auto

declare run_loop.simps [simp del]

text \<open>The loop \<open>for test_size in test_size_values\<close>.\<close>

fun size_loop ::
  "externals \<Rightarrow> nat \<Rightarrow> frame \<Rightarrow> npfloat list \<Rightarrow> real list \<Rightarrow> sweep_state
     \<Rightarrow> sweep_state \<times> error option" where
  "size_loop ext runs image_data truth_labels [] s = (s, None)"
| "size_loop ext runs image_data truth_labels (test_size # rest) s =
     (case run_loop ext runs image_data truth_labels test_size 1 (s\<lparr>acc := []\<rparr>) of
        (s1, Some e) \<Rightarrow> (s1, Some e)
      | (s1, None) \<Rightarrow>
          size_loop ext runs image_data truth_labels rest
            (s1\<lparr>all_acc_dataset := all_acc_dataset s1 @ [np_average (acc s1)]\<rparr>))"

text \<open>The loop \<open>for data, data_label in data_files\<close>.\<close>

fun data_loop ::
  "externals \<Rightarrow> nat \<Rightarrow> real list \<Rightarrow> (loaded \<times> string) list \<Rightarrow> sweep_state
     \<Rightarrow> sweep_state \<times> error option" where
  "data_loop ext runs sizes [] s = (s, None)"
| "data_loop ext runs sizes ((data, data_label) # rest) s =
     (case truth_labels_of data of
        Inl e \<Rightarrow> (s, Some e)
      | Inr truth_labels \<Rightarrow>
         (let image_data = image_data_of data
          in case size_loop ext runs image_data truth_labels sizes (s\<lparr>all_acc_dataset := []\<rparr>) of
               (s1, Some e) \<Rightarrow> (s1, Some e)
             | (s1, None) \<Rightarrow>
                 data_loop ext runs sizes rest
                   (s1\<lparr>accuracies := accuracies s1 @ [(data_label, all_acc_dataset s1)]\<rparr>)))"

definition sweep_init :: sweep_state where
  "sweep_init =
     \<lparr>accuracies = [(''test_size'', map Fin test_size_values)],
      all_acc_dataset = [], acc = [], rng = 0, pbar = 0\<rparr>"

definition evaluation_sweep ::
  "externals \<Rightarrow> (loaded \<times> string) list \<Rightarrow> sweep_state \<times> error option" where
  "evaluation_sweep ext data_files = data_loop ext num_runs test_size_values data_files sweep_init"

subsection \<open>The trials of a sweep, in order\<close>

text \<open>
  A trial is the data of one call of \<open>run_classifier\<close>: the image data and the truth
  labels of a dataset, and a test size. The schedule of a sweep lists the trials in the
  order of the three nested loops. The outcome of the \<open>j\<close>-th trial of a list, when
  \<open>n\<close> draws have been taken from the random source before the first one, is what
  \<open>run_classifier\<close> returns for it with the draw number \<open>n + j\<close> as its state.
\<close>

type_synonym trial = "frame \<times> npfloat list \<times> real"

definition schedule :: "nat \<Rightarrow> real list \<Rightarrow> (loaded \<times> string) list \<Rightarrow> trial list" where
  "schedule runs sizes data_files =
     concat (map (\<lambda>d. concat (map (\<lambda>test_size.
                replicate runs (image_data_of (fst d), map hd (rows (fst d)), test_size)) sizes))
             data_files)"

definition outcome :: "externals \<Rightarrow> nat \<Rightarrow> trial list \<Rightarrow> nat \<Rightarrow> error + npfloat" where
  "outcome ext n trials j =
     run_classifier ext (fst (trials ! j)) (fst (snd (trials ! j))) (snd (snd (trials ! j)))
       (randint ext (n + j))"

text \<open>Running a list of trials one after the other, up to and including the first one
  that fails: the number of draws taken at the end, and the error, if any.\<close>

fun run_trials :: "externals \<Rightarrow> trial list \<Rightarrow> nat \<Rightarrow> nat \<times> error option" where
  "run_trials ext [] n = (n, None)"
| "run_trials ext (t # rest) n =
     (case run_classifier ext (fst t) (fst (snd t)) (snd (snd t)) (randint ext n) of
        Inl e \<Rightarrow> (n + 1, Some e)
      | Inr a \<Rightarrow> run_trials ext rest (n + 1))"

text \<open>The accuracies that these trials return, in order, up to the first one that
  fails.\<close>

fun trial_values :: "externals \<Rightarrow> trial list \<Rightarrow> nat \<Rightarrow> npfloat list" where
  "trial_values ext [] n = []"
| "trial_values ext (t # rest) n =
     (case run_classifier ext (fst t) (fst (snd t)) (snd (snd t)) (randint ext n) of
        Inl e \<Rightarrow> []
      | Inr a \<Rightarrow> a # trial_values ext rest (n + 1))"

subsection \<open>A sweep whose fifth trial fails\<close>

text \<open>
  Collaborators for a concrete sweep. The split puts the state it was given into the
  training features, so that the classifier can tell the trials apart, and tests on one
  sample of class 0; the classifier raises on the trial whose state is 4 and otherwise
  predicts class 0; the \<open>n\<close>-th draw of the random source is \<open>n\<close>. The sweep runs
  on one dataset, of one row.
\<close>

definition failing_ext :: externals where
  "failing_ext =
     \<lparr>train_test_split =
        (\<lambda>image_data truth_labels test_size state.
           Inr ([[Fin (real state)]], [[Fin 0]], [Fin 0], [Fin 0])),
      do_classify =
        (\<lambda>test_features train_features train_labels nn_count.
           if train_features = [[Fin 4]] then Inl ExternalClassifierError
           else Inr [[Fin 1, Fin (-1)]]),
      randint = (\<lambda>n. n)\<rparr>"

definition one_dataset :: "(loaded \<times> string) list" where
  "one_dataset = [(\<lparr>columns = [Fin 0, Fin 1], rows = [[Fin 1, Fin 5]]\<rparr>, ''Raw data'')]"

section \<open>Scenario A of the specification\<close>

text \<open>The two-sample corpus: a star with grid \<open>[[1,2],[3,4]]\<close> and a galaxy with grid
  \<open>[[5,6],[7,8]]\<close>, named as the cutout generator names its files.\<close>

definition scenario_A :: "(string \<times> npfloat list list) list" where
  "scenario_A =
     [(''star_0.fits'', [[Fin 1, Fin 2], [Fin 3, Fin 4]]),
      (''galaxy_0.fits'', [[Fin 5, Fin 6], [Fin 7, Fin 8]])]"

section \<open>Scenario C of the specification\<close>


text \<open>A cutout of the fixed shape, 20 by 20, every pixel 1.\<close>

definition uniform_cutout :: "string \<times> npfloat list list" where
  "uniform_cutout = (''star_0.fits'', replicate 20 (map Fin (replicate 20 1)))"

section \<open>Specification predicates\<close>

text \<open>A table is labelled when every row starts with a class label, 0 or 1.\<close>

definition labelled :: "frame \<Rightarrow> bool" where
  "labelled df = list_all (\<lambda>row. row \<noteq> [] \<and> (hd row = Fin 0 \<or> hd row = Fin 1)) df"

section \<open>Minimum and maximum of finite samples\<close>

lemma foldl_min_Min: "foldl min (a::real) xs = Min (insert a (set xs))"
proof (induction xs arbitrary: a)
  case Nil show ?case by simp
next
  case (Cons x xs)
  have "Min (insert (min a x) (set xs)) = Min (insert a (insert x (set xs)))"
    by (cases "set xs = {}") (simp_all add: min.assoc)
  with Cons show ?case by simp
qed

lemma foldl_max_Max: "foldl max (a::real) xs = Max (insert a (set xs))"
proof (induction xs arbitrary: a)
  case Nil show ?case by simp
next
  case (Cons x xs)
  have "Max (insert (max a x) (set xs)) = Max (insert a (insert x (set xs)))"
    by (cases "set xs = {}") (simp_all add: max.assoc)
  with Cons show ?case by simp
qed

lemma np_minimum_Fin: "np_minimum (Fin a) (Fin b) = Fin (min a b)"
  by (simp add: min_def)

lemma np_maximum_Fin: "np_maximum (Fin a) (Fin b) = Fin (max a b)"
  by (simp add: max_def)

lemma foldl_minimum_Fin: "foldl np_minimum (Fin a) (map Fin xs) = Fin (foldl min a xs)"
  by (induction xs arbitrary: a) (simp_all add: np_minimum_Fin del: np_minimum.simps)

lemma foldl_maximum_Fin: "foldl np_maximum (Fin a) (map Fin xs) = Fin (foldl max a xs)"
  by (induction xs arbitrary: a) (simp_all add: np_maximum_Fin del: np_maximum.simps)

lemma np_amin_Fin: "xs \<noteq> [] \<Longrightarrow> np_amin (map Fin xs) = Inr (Fin (Min (set xs)))"
  by (cases xs) (simp_all add: np_amin_def foldl_minimum_Fin foldl_min_Min)

lemma np_amax_Fin: "xs \<noteq> [] \<Longrightarrow> np_amax (map Fin xs) = Inr (Fin (Max (set xs)))"
  by (cases xs) (simp_all add: np_amax_def foldl_maximum_Fin foldl_max_Max)

section \<open>The formulas of techniques 2, 3 and 4 on finite samples\<close>

text \<open>The quotients that \<open>norm_2\<close>, \<open>norm_3\<close> and \<open>norm_4\<close> compute on finite
  values, and the corpus of scenario A. For \<open>norm_3\<close> this is the case of extrema that
  are 64-bit floats.\<close>

lemma norm_3_Fin:
  "mn \<noteq> mx \<Longrightarrow>
   norm_3 \<lparr>min_pixel_all = Fin mn, max_pixel_all = Fin mx\<rparr> (map Fin x)
     = Inr (map (\<lambda>v. Fin ((v - mn) / (mx - mn))) x)"
  by (simp add: norm_3_def)

lemma norm_4_Fin:
  "x \<noteq> [] \<Longrightarrow> mx \<noteq> 0 \<Longrightarrow>
   norm_4 \<lparr>min_pixel_all = mn, max_pixel_all = Fin mx\<rparr> (map Fin x)
     = Inr (map (\<lambda>v. Fin ((v - Min (set x)) / mx)) x)"
  by (simp add: norm_4_def np_amin_Fin)

lemma norm_2_Fin:
  "x \<noteq> [] \<Longrightarrow> Min (set x) \<noteq> Max (set x) \<Longrightarrow>
   norm_2 (map Fin x) = Inr (map (\<lambda>v. Fin ((v - Min (set x)) / (Max (set x) - Min (set x)))) x)"
  by (simp add: norm_2_def np_amin_Fin np_amax_Fin)

lemma scenario_A_loader:
  "loader scenario_A =
     Inr \<lparr>obj_id = Some 1, min_pixel = [Fin 1, Fin 5], max_pixel = [Fin 4, Fin 8],
          gal_star = [[Fin 0, Fin 1, Fin 2, Fin 3, Fin 4], [Fin 1, Fin 5, Fin 6, Fin 7, Fin 8]]\<rparr>"
  by (simp add: scenario_A_def loader_def loader_init_def load_one_def startswith_def
      np_amin_def np_amax_def df_append_def width_def pad_def)

lemma scenario_A_stats:
  "corpus_stats \<lparr>obj_id = Some 1, min_pixel = [Fin 1, Fin 5], max_pixel = [Fin 4, Fin 8],
          gal_star = [[Fin 0, Fin 1, Fin 2, Fin 3, Fin 4], [Fin 1, Fin 5, Fin 6, Fin 7, Fin 8]]\<rparr>
   = Inr \<lparr>min_pixel_all = Fin 1, max_pixel_all = Fin 8\<rparr>"
  by (simp add: corpus_stats_def np_amin_def np_amax_def)

section \<open>Technique 3 on 16-bit and on single-precision images\<close>

lemma floor_log2:
  fixes x :: real
  assumes "2 powr of_int e \<le> x" "x < 2 powr (of_int e + 1)"
  shows "\<lfloor>log 2 x\<rfloor> = e"
proof (rule floor_unique)
  have "0 < (2::real) powr of_int e" by simp
  with assms(1) have pos: "0 < x" by linarith
  show "of_int e \<le> log 2 x" using assms(1) pos by (simp add: le_log_iff)
  show "log 2 x < of_int e + 1" using assms(2) pos by (simp add: log_less_iff)
qed

lemma float32_of_tenth: "float32 (13421773 / 134217728) = Fin (13421773 / 134217728)"
proof -
  let ?x = "13421773 / 134217728 :: real"
  have fl: "\<lfloor>log 2 \<bar>?x\<bar>\<rfloor> = - 4"
    by (intro floor_log2) (simp_all add: powr_minus powr_numeral)
  have ulp: "(2::real) powr (of_int (max (- 4) (- 126)) - 23) = 1 / 134217728"
    by (simp add: powr_minus powr_numeral)
  have q: "?x / (1 / 134217728) = 13421773" by simp
  have r: "round_half_even 13421773 = 13421773" by (simp add: round_half_even_def Let_def)
  show ?thesis unfolding float32_def fl Let_def ulp q r by simp
qed

lemma float32_of_six_tenths: "float32 (5033165 / 8388608) = Fin (5033165 / 8388608)"
proof -
  let ?x = "5033165 / 8388608 :: real"
  have fl: "\<lfloor>log 2 \<bar>?x\<bar>\<rfloor> = - 1"
    by (intro floor_log2) (simp_all add: powr_minus powr_numeral)
  have ulp: "(2::real) powr (of_int (max (- 1) (- 126)) - 23) = 1 / 16777216"
    by (simp add: powr_minus powr_numeral)
  have q: "?x / (1 / 16777216) = 10066330" by simp
  have r: "round_half_even 10066330 = 10066330" by (simp add: round_half_even_def Let_def)
  show ?thesis unfolding float32_def fl Let_def ulp q r by simp
qed

lemma float32_of_difference: "float32 (67108867 / 134217728) = Fin (1 / 2)"
proof -
  let ?x = "67108867 / 134217728 :: real"
  have fl: "\<lfloor>log 2 \<bar>?x\<bar>\<rfloor> = - 1"
    by (intro floor_log2) (simp_all add: powr_minus powr_numeral)
  have ulp: "(2::real) powr (of_int (max (- 1) (- 126)) - 23) = 1 / 16777216"
    by (simp add: powr_minus powr_numeral)
  have q: "?x / (1 / 16777216) = 67108867 / 8" by simp
  have f: "\<lfloor>67108867 / 8 :: real\<rfloor> = 8388608" by (rule floor_unique) simp_all
  have r: "round_half_even (67108867 / 8) = 8388608"
    by (simp add: round_half_even_def f Let_def)
  show ?thesis unfolding float32_def fl Let_def ulp q r by simp
qed

lemma float32_sub_example:
  "float32_sub (Fin (5033165 / 8388608)) (Fin (13421773 / 134217728)) = Fin (1 / 2)"
proof -
  have d: "(5033165 / 8388608 - 13421773 / 134217728 :: real) = 67108867 / 134217728" by simp
  show ?thesis unfolding float32_sub_def np_sub.simps d
    by (simp only: npfloat.case float32_of_difference)
qed

lemma norm_3_float32_example:
  "norm_3_float32 \<lparr>min_pixel_all = Fin (13421773 / 134217728),
                   max_pixel_all = Fin (5033165 / 8388608)\<rparr>
     [Fin (13421773 / 134217728), Fin (5033165 / 8388608)]
   = Inr [Fin 0, Fin (67108867 / 67108864)]"
  unfolding norm_3_float32_def by (simp add: float32_sub_example)

lemma int16_difference_wraps: "sint (32767 - (- 32768) :: 16 word) = - 1"
  by simp

lemma single_cutout_stats:
  "loader [(''star_0.fits'', [[Fin a, Fin b]])]
     = Inr \<lparr>obj_id = Some 0, min_pixel = [Fin (min a b)], max_pixel = [Fin (max a b)],
            gal_star = [[Fin 0, Fin a, Fin b]]\<rparr>
   \<and> corpus_stats \<lparr>obj_id = Some 0, min_pixel = [Fin (min a b)], max_pixel = [Fin (max a b)],
            gal_star = [[Fin 0, Fin a, Fin b]]\<rparr>
     = Inr \<lparr>min_pixel_all = Fin (min a b), max_pixel_all = Fin (max a b)\<rparr>"
  by (simp add: loader_def loader_init_def load_one_def startswith_def corpus_stats_def
      np_amin_def np_amax_def df_append_def width_def pad_def)

text \<open>
  Claim C5. The markdown of technique 3 gives
  \<open>data_norm = (data - min_all) / (max_all - min_all)\<close>, and the claim repeats it for
  every corpus. The code computes the divisor in the type of the two extrema. On a corpus
  of 16-bit integer images whose pixels span the type, \<open>-32768\<close> to \<open>32767\<close>, the
  divisor \<open>65535\<close> wraps to \<open>-1\<close> and technique 3 returns each pixel's distance from
  the minimum with its sign changed: \<open>[0, -32768, -65535]\<close> where the formula gives
  \<open>[0, 32768/65535, 1]\<close>. On a corpus of single-precision images with the pixels
  \<open>0.1\<close> and \<open>0.6\<close>, as single precision has them, the divisor is rounded to
  \<open>1/2\<close> and the result for the maximum is \<open>67108867/67108864\<close> where the formula
  gives \<open>1\<close>.
\<close>

theorem C5_norm_3_divisor_in_image_type:
  "norm_3_int16 (- 32768) 32767 [Fin (- 32768), Fin 0, Fin 32767]
     = Inr [Fin 0, Fin (- 32768), Fin (- 65535)]
   \<and> sint (32767 - (- 32768) :: 16 word) = - 1
   \<and> map (\<lambda>x. (x - (- 32768)) / (32767 - (- 32768))) [- 32768, 0, 32767 :: real]
       = [0, 32768 / 65535, 1]
   \<and> norm_3_float32 \<lparr>min_pixel_all = Fin (13421773 / 134217728),
                      max_pixel_all = Fin (5033165 / 8388608)\<rparr>
        [Fin (13421773 / 134217728), Fin (5033165 / 8388608)]
       = Inr [Fin 0, Fin (67108867 / 67108864)]
   \<and> float32_sub (Fin (5033165 / 8388608)) (Fin (13421773 / 134217728)) = Fin (1 / 2)
   \<and> map (\<lambda>x. (x - 13421773 / 134217728) / (5033165 / 8388608 - 13421773 / 134217728))
        [13421773 / 134217728, 5033165 / 8388608 :: real] = [0, 1]"
proof -
  have a: "norm_3_int16 (- 32768) 32767 [Fin (- 32768), Fin 0, Fin 32767]
     = Inr [Fin 0, Fin (- 32768), Fin (- 65535)]"
    by (simp add: norm_3_int16_def)
  have b: "map (\<lambda>x. (x - (- 32768)) / (32767 - (- 32768))) [- 32768, 0, 32767 :: real]
       = [0, 32768 / 65535, 1]" by simp
  have c: "map (\<lambda>x. (x - 13421773 / 134217728) / (5033165 / 8388608 - 13421773 / 134217728))
        [13421773 / 134217728, 5033165 / 8388608 :: real] = [0, 1]" by simp
  from a int16_difference_wraps b norm_3_float32_example float32_sub_example c
  show ?thesis by (intro conjI)
qed

text \<open>
  Claim C7. The markdown of technique 3 says that it scales all data between 0 and 1, and
  the claim says so for every sample inside the range of its corpus. Because the divisor
  is computed in the type of the extrema, this fails on the corpus itself. The corpus of
  one single-precision cutout with the pixels \<open>0.1\<close> and \<open>0.6\<close> (both are
  single-precision numbers, and they are the extrema of the corpus) has a rounded divisor
  \<open>1/2\<close>, smaller than the range, and technique 3 maps the maximum to
  \<open>67108867/67108864\<close>, which is greater than 1. The corpus of one 16-bit cutout
  with the pixels \<open>-32768\<close> and \<open>32767\<close> has the divisor \<open>-1\<close>, and technique 3
  maps the maximum to \<open>-65535\<close>.
\<close>

theorem C7_norm_3_leaves_unit_range:
  "float32 (13421773 / 134217728) = Fin (13421773 / 134217728)
   \<and> float32 (5033165 / 8388608) = Fin (5033165 / 8388608)
   \<and> (\<exists>s. loader [(''star_0.fits'', [[Fin (13421773 / 134217728), Fin (5033165 / 8388608)]])]
            = Inr s
         \<and> corpus_stats s = Inr \<lparr>min_pixel_all = Fin (13421773 / 134217728),
                                  max_pixel_all = Fin (5033165 / 8388608)\<rparr>
         \<and> drop 1 (gal_star s ! 0) = [Fin (13421773 / 134217728), Fin (5033165 / 8388608)])
   \<and> (13421773 / 134217728 :: real) < 5033165 / 8388608
   \<and> norm_3_float32 \<lparr>min_pixel_all = Fin (13421773 / 134217728),
                      max_pixel_all = Fin (5033165 / 8388608)\<rparr>
        [Fin (13421773 / 134217728), Fin (5033165 / 8388608)]
       = Inr [Fin 0, Fin (67108867 / 67108864)]
   \<and> (1 :: real) < 67108867 / 67108864
   \<and> (\<exists>s. loader [(''star_0.fits'', [[Fin (- 32768), Fin 32767]])] = Inr s
         \<and> corpus_stats s = Inr \<lparr>min_pixel_all = Fin (real_of_int (sint (- 32768 :: 16 word))),
                                  max_pixel_all = Fin (real_of_int (sint (32767 :: 16 word)))\<rparr>
         \<and> drop 1 (gal_star s ! 0) = [Fin (- 32768), Fin 32767])
   \<and> norm_3_int16 (- 32768) 32767 [Fin (- 32768), Fin 32767] = Inr [Fin 0, Fin (- 65535)]
   \<and> (- 65535 :: real) < 0"
proof -
  let ?a = "13421773 / 134217728 :: real" and ?b = "5033165 / 8388608 :: real"
  have m: "min ?a ?b = ?a" "max ?a ?b = ?b" by simp_all
  have c: "\<exists>s. loader [(''star_0.fits'', [[Fin ?a, Fin ?b]])] = Inr s
         \<and> corpus_stats s = Inr \<lparr>min_pixel_all = Fin ?a, max_pixel_all = Fin ?b\<rparr>
         \<and> drop 1 (gal_star s ! 0) = [Fin ?a, Fin ?b]"
    using single_cutout_stats [of ?a ?b] unfolding m by simp
  have d: "(13421773 / 134217728 :: real) < 5033165 / 8388608" by simp
  have e: "(1 :: real) < 67108867 / 67108864" by simp
  have m16: "min (- 32768) (32767 :: real) = - 32768" "max (- 32768) (32767 :: real) = 32767"
    by simp_all
  have f: "\<exists>s. loader [(''star_0.fits'', [[Fin (- 32768), Fin 32767]])] = Inr s
         \<and> corpus_stats s = Inr \<lparr>min_pixel_all = Fin (real_of_int (sint (- 32768 :: 16 word))),
                                  max_pixel_all = Fin (real_of_int (sint (32767 :: 16 word)))\<rparr>
         \<and> drop 1 (gal_star s ! 0) = [Fin (- 32768), Fin 32767]"
    using single_cutout_stats [of "- 32768" 32767] unfolding m16 by simp
  have g: "norm_3_int16 (- 32768) 32767 [Fin (- 32768), Fin 32767] = Inr [Fin 0, Fin (- 65535)]"
    by (simp add: norm_3_int16_def)
  have h: "(- 65535 :: real) < 0" by simp
  from float32_of_tenth float32_of_six_tenths c d norm_3_float32_example e f g h
  show ?thesis by (intro conjI)
qed

section \<open>The divisor of technique 5\<close>

lemma norm_5_via_norm_1:
  "norm_5 st data =
     (case norm_1 data of Inl e \<Rightarrow> Inl e
      | Inr y \<Rightarrow> Inr (map (\<lambda>v. np_div v (np_log10 (max_pixel_all st))) y))"
  by (cases "np_amin (map np_log10 data)") (simp_all add: norm_5_def norm_1_def Let_def)

lemma log10_positive_sample:
  "\<forall>v\<in>set x. 0 < v \<Longrightarrow> map np_log10 (map Fin x) = map Fin (map (log 10) x)"
  by (induction x) simp_all

lemma norm_5_positive:
  assumes ne: "x \<noteq> []" and pos: "\<forall>v\<in>set x. 0 < v"
  shows "norm_5 \<lparr>min_pixel_all = mn, max_pixel_all = mx\<rparr> (map Fin x)
           = Inr (map (\<lambda>v. np_div (Fin (log 10 v - Min (log 10 ` set x))) (np_log10 mx)) x)"
proof -
  have ld: "map np_log10 (map Fin x) = map Fin (map (log 10) x)"
    using pos by (rule log10_positive_sample)
  have "np_amin (map Fin (map (log 10) x)) = Inr (Fin (Min (set (map (log 10) x))))"
    using ne by (intro np_amin_Fin) simp
  then show ?thesis
    unfolding norm_5_def ld by (simp add: comp_def)
qed

lemma log_numerator_nonneg:
  assumes "v \<in> set x"
  shows "0 \<le> log 10 v - Min (log 10 ` set x)"
proof -
  have "Min (log 10 ` set x) \<le> log 10 v" using assms by (intro Min_le) auto
  then show ?thesis by simp
qed

lemma norm_1_positive:
  assumes ne: "x \<noteq> []" and pos: "\<forall>v\<in>set x. 0 < v"
  shows "norm_1 (map Fin x) = Inr (map (\<lambda>v. Fin (log 10 v - Min (log 10 ` set x))) x)"
proof -
  have ld: "map np_log10 (map Fin x) = map Fin (map (log 10) x)"
    using pos by (rule log10_positive_sample)
  have "np_amin (map Fin (map (log 10) x)) = Inr (Fin (Min (set (map (log 10) x))))"
    using ne by (intro np_amin_Fin) simp
  then show ?thesis
    unfolding norm_1_def ld by (simp add: comp_def)
qed

text \<open>
  Claim C10. Technique 5 is technique 1 divided elementwise by \<open>log10(max_pixel_all)\<close>,
  and \<open>log10(1) = 0\<close>. On a non-empty sample all of whose pixels are strictly positive,
  technique 1 returns the finite numerators \<open>log10(v) - min(log10(x))\<close>, none negative.
  When \<open>max_pixel_all = 1\<close> the divisor is exactly 0 and technique 5 returns NaN where
  the numerator is 0 and \<open>+inf\<close> elsewhere. When \<open>0 < max_pixel_all < 1\<close> the divisor
  \<open>log10(max_pixel_all)\<close> is negative and technique 5 returns the quotients, all finite
  and at most 0. When \<open>max_pixel_all > 1\<close> the divisor is positive and technique 5
  returns the quotients, all finite and at least 0. (The values are given with rounding
  set aside; rounding changes neither the zero nor the sign of the divisor.)
\<close>

theorem C10_norm_5_divisor:
  "norm_5 st data =
     (case norm_1 data of
        Inl e \<Rightarrow> Inl e
      | Inr y \<Rightarrow> Inr (map (\<lambda>v. np_div v (np_log10 (max_pixel_all st))) y))
   \<and> np_log10 (Fin 1) = Fin 0
   \<and> (x \<noteq> [] \<and> (\<forall>v\<in>set x. 0 < v) \<longrightarrow>
        norm_1 (map Fin x) = Inr (map (\<lambda>v. Fin (log 10 v - Min (log 10 ` set x))) x)
        \<and> (\<forall>v\<in>set x. 0 \<le> log 10 v - Min (log 10 ` set x))
        \<and> norm_5 \<lparr>min_pixel_all = mn, max_pixel_all = Fin 1\<rparr> (map Fin x)
            = Inr (map (\<lambda>v. if log 10 v = Min (log 10 ` set x) then NaN else PInf) x)
        \<and> (0 < m \<and> m < 1 \<longrightarrow>
              np_log10 (Fin m) = Fin (log 10 m) \<and> log 10 m < 0
              \<and> norm_5 \<lparr>min_pixel_all = mn, max_pixel_all = Fin m\<rparr> (map Fin x)
                  = Inr (map (\<lambda>v. Fin ((log 10 v - Min (log 10 ` set x)) / log 10 m)) x)
              \<and> (\<forall>v\<in>set x. (log 10 v - Min (log 10 ` set x)) / log 10 m \<le> 0))
        \<and> (1 < m \<longrightarrow>
              np_log10 (Fin m) = Fin (log 10 m) \<and> 0 < log 10 m
              \<and> norm_5 \<lparr>min_pixel_all = mn, max_pixel_all = Fin m\<rparr> (map Fin x)
                  = Inr (map (\<lambda>v. Fin ((log 10 v - Min (log 10 ` set x)) / log 10 m)) x)
              \<and> (\<forall>v\<in>set x. 0 \<le> (log 10 v - Min (log 10 ` set x)) / log 10 m)))"
proof (intro conjI impI)
  show "norm_5 st data =
     (case norm_1 data of
        Inl e \<Rightarrow> Inl e
      | Inr y \<Rightarrow> Inr (map (\<lambda>v. np_div v (np_log10 (max_pixel_all st))) y))"
    by (rule norm_5_via_norm_1)
  show "np_log10 (Fin 1) = Fin 0" by simp
next
  assume h: "x \<noteq> [] \<and> (\<forall>v\<in>set x. 0 < v)"
  then show "norm_1 (map Fin x) = Inr (map (\<lambda>v. Fin (log 10 v - Min (log 10 ` set x))) x)"
    by (simp add: norm_1_positive)
  show "\<forall>v\<in>set x. 0 \<le> log 10 v - Min (log 10 ` set x)"
    using log_numerator_nonneg by blast
  have "norm_5 \<lparr>min_pixel_all = mn, max_pixel_all = Fin 1\<rparr> (map Fin x)
      = Inr (map (\<lambda>v. np_div (Fin (log 10 v - Min (log 10 ` set x))) (np_log10 (Fin 1))) x)"
    using h by (simp add: norm_5_positive)
  moreover have "map (\<lambda>v. np_div (Fin (log 10 v - Min (log 10 ` set x))) (np_log10 (Fin 1))) x
      = map (\<lambda>v. if log 10 v = Min (log 10 ` set x) then NaN else PInf) x"
  proof (rule map_cong [OF refl])
    fix v assume "v \<in> set x"
    from log_numerator_nonneg [OF this]
    show "np_div (Fin (log 10 v - Min (log 10 ` set x))) (np_log10 (Fin 1))
        = (if log 10 v = Min (log 10 ` set x) then NaN else PInf)"
      by auto
  qed
  ultimately show "norm_5 \<lparr>min_pixel_all = mn, max_pixel_all = Fin 1\<rparr> (map Fin x)
            = Inr (map (\<lambda>v. if log 10 v = Min (log 10 ` set x) then NaN else PInf) x)"
    by simp
next
  assume h: "x \<noteq> [] \<and> (\<forall>v\<in>set x. 0 < v)" and m: "0 < m \<and> m < 1"
  show "np_log10 (Fin m) = Fin (log 10 m)" using m by simp
  show neg: "log 10 m < 0" using m by simp
  have "norm_5 \<lparr>min_pixel_all = mn, max_pixel_all = Fin m\<rparr> (map Fin x)
      = Inr (map (\<lambda>v. np_div (Fin (log 10 v - Min (log 10 ` set x))) (np_log10 (Fin m))) x)"
    using h by (simp add: norm_5_positive)
  then show "norm_5 \<lparr>min_pixel_all = mn, max_pixel_all = Fin m\<rparr> (map Fin x)
                  = Inr (map (\<lambda>v. Fin ((log 10 v - Min (log 10 ` set x)) / log 10 m)) x)"
    using m neg by simp
  show "\<forall>v\<in>set x. (log 10 v - Min (log 10 ` set x)) / log 10 m \<le> 0"
    using log_numerator_nonneg neg by (simp add: divide_le_0_iff)
next
  assume h: "x \<noteq> [] \<and> (\<forall>v\<in>set x. 0 < v)" and m: "1 < m"
  show "np_log10 (Fin m) = Fin (log 10 m)" using m by simp
  show pos: "0 < log 10 m" using m by simp
  have "norm_5 \<lparr>min_pixel_all = mn, max_pixel_all = Fin m\<rparr> (map Fin x)
      = Inr (map (\<lambda>v. np_div (Fin (log 10 v - Min (log 10 ` set x))) (np_log10 (Fin m))) x)"
    using h by (simp add: norm_5_positive)
  then show "norm_5 \<lparr>min_pixel_all = mn, max_pixel_all = Fin m\<rparr> (map Fin x)
                  = Inr (map (\<lambda>v. Fin ((log 10 v - Min (log 10 ` set x)) / log 10 m)) x)"
    using m pos by simp
  show "\<forall>v\<in>set x. 0 \<le> (log 10 v - Min (log 10 ` set x)) / log 10 m"
    using log_numerator_nonneg pos by simp
qed

theorem C10_norm_5_divisor_witness:
  "[1/4, 1/2 :: real] \<noteq> [] \<and> (0::real) < 1/4 \<and> (0::real) < 1/2
   \<and> norm_5 \<lparr>min_pixel_all = Fin (1/4), max_pixel_all = Fin 1\<rparr> (map Fin [1/4, 1/2])
       = Inr (map (\<lambda>v. if log 10 v = Min (log 10 ` set [1/4, 1/2]) then NaN else PInf) [1/4, 1/2])
   \<and> ((0::real) < 1/2 \<and> (1/2::real) < 1)
   \<and> log 10 (1/2) < 0
   \<and> norm_5 \<lparr>min_pixel_all = Fin (1/4), max_pixel_all = Fin (1/2)\<rparr> (map Fin [1/4, 1/2])
       = Inr (map (\<lambda>v. Fin ((log 10 v - Min (log 10 ` set [1/4, 1/2])) / log 10 (1/2))) [1/4, 1/2])
   \<and> (1::real) < 10
   \<and> 0 < log 10 (10::real)
   \<and> norm_5 \<lparr>min_pixel_all = Fin (1/4), max_pixel_all = Fin 10\<rparr> (map Fin [1/4, 1/2])
       = Inr (map (\<lambda>v. Fin ((log 10 v - Min (log 10 ` set [1/4, 1/2])) / log 10 10)) [1/4, 1/2])"
proof -
  have h: "[1/4, 1/2 :: real] \<noteq> [] \<and> (\<forall>v\<in>set [1/4, 1/2 :: real]. 0 < v)" by simp
  have p1: "[1/4, 1/2 :: real] \<noteq> []" and p2: "(0::real) < 1/4" and p3: "(0::real) < 1/2"
    by simp_all
  have m: "(0::real) < 1/2 \<and> (1/2::real) < 1" by simp
  have m2: "(1::real) < 10" by simp
  note c = C10_norm_5_divisor [of "\<lparr>min_pixel_all = Fin (1/4), max_pixel_all = Fin 1\<rparr>" "[]"
      "[1/4, 1/2]" "Fin (1/4)" "1/2", THEN conjunct2, THEN conjunct2, THEN mp, OF h]
  note d = C10_norm_5_divisor [of "\<lparr>min_pixel_all = Fin (1/4), max_pixel_all = Fin 1\<rparr>" "[]"
      "[1/4, 1/2]" "Fin (1/4)" 10, THEN conjunct2, THEN conjunct2, THEN mp, OF h]
  note a = c [THEN conjunct2, THEN conjunct2, THEN conjunct1]
  note b = c [THEN conjunct2, THEN conjunct2, THEN conjunct2, THEN conjunct1, THEN mp, OF m]
  note b' = d [THEN conjunct2, THEN conjunct2, THEN conjunct2, THEN conjunct2, THEN mp, OF m2]
  from p1 p2 p3 a m [THEN conjunct1] m [THEN conjunct2] b [THEN conjunct2, THEN conjunct1]
    b [THEN conjunct2, THEN conjunct2, THEN conjunct1] m2
    b' [THEN conjunct2, THEN conjunct1] b' [THEN conjunct2, THEN conjunct2, THEN conjunct1]
  show ?thesis by (intro conjI)
qed

section \<open>Degenerate samples\<close>

















section \<open>Rows and labels of the tables\<close>

lemma prefix_pad: "prefix r (pad w r)"
  by (simp add: pad_def)

lemma length_df_append: "length (df_append df r) = Suc (length df)"
  by (simp add: df_append_def Let_def)

lemma df_append_nth_old: "i < length df \<Longrightarrow> prefix (df ! i) (df_append df r ! i)"
  by (simp add: df_append_def Let_def nth_append prefix_pad)

lemma df_append_nth_new: "prefix r (df_append df r ! length df)"
  by (simp add: df_append_def Let_def nth_append prefix_pad)

lemma df_append_uniform:
  assumes "\<forall>row\<in>set df. length row = length r"
  shows "df_append df r = df @ [r]"
proof -
  have w: "max (width df) (length r) = length r"
    using assms by (cases df) (simp_all add: width_def)
  have "map (pad (length r)) df = df"
    using assms by (induction df) (simp_all add: pad_def)
  then show ?thesis by (simp add: df_append_def w pad_def)
qed

lemma prefix_hd: "prefix a b \<Longrightarrow> a \<noteq> [] \<Longrightarrow> b \<noteq> [] \<and> hd b = hd a"
  by (cases a) (auto simp: prefix_def)

text \<open>The technique loop keeps every row\<close>

lemma norm_rows_keeps_rows:
  "norm_rows technique gal_star_norm df = Inr tbl \<Longrightarrow>
   length tbl = length gal_star_norm + length df
   \<and> (\<forall>i<length gal_star_norm. prefix (gal_star_norm ! i) (tbl ! i))
   \<and> (\<forall>i<length df. \<exists>y. technique (drop 1 (df ! i)) = Inr y
          \<and> prefix (take 1 (df ! i) @ y) (tbl ! (length gal_star_norm + i)))"
proof (induction df arbitrary: gal_star_norm)
  case Nil
  then show ?case by simp
next
  case (Cons row rest)
  from Cons.prems obtain y where y: "technique (drop 1 row) = Inr y"
    and rec: "norm_rows technique (df_append gal_star_norm (take 1 row @ y)) rest = Inr tbl"
    by (auto simp: Let_def split: sum.splits)
  let ?acc = "df_append gal_star_norm (take 1 row @ y)"
  note ih = Cons.IH [OF rec]
  have len: "length tbl = length gal_star_norm + length (row # rest)"
    using ih by (simp add: length_df_append)
  have old: "\<forall>i<length gal_star_norm. prefix (gal_star_norm ! i) (tbl ! i)"
  proof (intro allI impI)
    fix i assume i: "i < length gal_star_norm"
    then have "prefix (gal_star_norm ! i) (?acc ! i)" by (rule df_append_nth_old)
    moreover have "prefix (?acc ! i) (tbl ! i)" using ih i by (simp add: length_df_append)
    ultimately show "prefix (gal_star_norm ! i) (tbl ! i)" by (rule prefix_order.trans)
  qed
  have new: "\<forall>i<length (row # rest). \<exists>y. technique (drop 1 ((row # rest) ! i)) = Inr y
          \<and> prefix (take 1 ((row # rest) ! i) @ y) (tbl ! (length gal_star_norm + i))"
  proof (intro allI impI)
    fix i assume i: "i < length (row # rest)"
    show "\<exists>y. technique (drop 1 ((row # rest) ! i)) = Inr y
          \<and> prefix (take 1 ((row # rest) ! i) @ y) (tbl ! (length gal_star_norm + i))"
    proof (cases i)
      case 0
      have "prefix (take 1 row @ y) (?acc ! length gal_star_norm)" by (rule df_append_nth_new)
      moreover have "prefix (?acc ! length gal_star_norm) (tbl ! length gal_star_norm)"
        using ih by (simp add: length_df_append)
      ultimately have "prefix (take 1 row @ y) (tbl ! length gal_star_norm)"
        by (rule prefix_order.trans)
      with y 0 show ?thesis by simp
    next
      case (Suc j)
      with i have "j < length rest" by simp
      with ih obtain z where "technique (drop 1 (rest ! j)) = Inr z"
        "prefix (take 1 (rest ! j) @ z) (tbl ! (length ?acc + j))" by blast
      with Suc show ?thesis by (simp add: length_df_append)
    qed
  qed
  from len old new show ?case by blast
qed

lemma apply_technique_keeps_rows:
  "apply_technique technique df = Inr tbl \<Longrightarrow>
   length tbl = length df
   \<and> (\<forall>i<length df. \<exists>y. technique (drop 1 (df ! i)) = Inr y
          \<and> prefix (take 1 (df ! i) @ y) (tbl ! i))"
  using norm_rows_keeps_rows [of technique "[]" df tbl] by (simp add: apply_technique_def)

lemma apply_technique_heads:
  assumes "apply_technique technique df = Inr tbl" "\<forall>row\<in>set df. row \<noteq> []"
  shows "length tbl = length df \<and> (\<forall>i<length df. tbl ! i \<noteq> [] \<and> hd (tbl ! i) = hd (df ! i))"
proof (rule conjI)
  show "length tbl = length df" using apply_technique_keeps_rows [OF assms(1)] by simp
next
  show "\<forall>i<length df. tbl ! i \<noteq> [] \<and> hd (tbl ! i) = hd (df ! i)"
  proof (intro allI impI)
    fix i assume i: "i < length df"
    with apply_technique_keeps_rows [OF assms(1)] obtain y where
      p: "prefix (take 1 (df ! i) @ y) (tbl ! i)" by blast
    from i assms(2) have ne: "df ! i \<noteq> []" by simp
    then have ne': "take 1 (df ! i) @ y \<noteq> []" by (cases "df ! i") simp_all
    have "hd (take 1 (df ! i) @ y) = hd (df ! i)" using ne by (cases "df ! i") simp_all
    with prefix_hd [OF p ne'] show "tbl ! i \<noteq> [] \<and> hd (tbl ! i) = hd (df ! i)" by simp
  qed
qed


lemma df_append_nonempty:
  assumes "\<forall>row\<in>set df. row \<noteq> []" "r \<noteq> []"
  shows "\<forall>row\<in>set (df_append df r). row \<noteq> []"
  using assms by (auto simp: df_append_def Let_def pad_def)

lemma df_append_hd_old:
  assumes "i < length df" "df ! i \<noteq> []"
  shows "hd (df_append df r ! i) = hd (df ! i)"
  using prefix_hd [OF df_append_nth_old [OF assms(1)] assms(2)] by simp

lemma df_append_hd_new: "r \<noteq> [] \<Longrightarrow> hd (df_append df r ! length df) = hd r"
  using prefix_hd [OF df_append_nth_new] by simp

lemma star_not_galaxy: "startswith nm ''star'' \<Longrightarrow> \<not> startswith nm ''galaxy''"
  by (cases nm) (auto simp: startswith_def)

lemma load_one_result:
  assumes "load_one s fi = Inr s'" "obj_id s = None \<or> obj_id s = Some 0 \<or> obj_id s = Some 1"
  shows "\<exists>l. obj_id s' = Some l \<and> (l = 0 \<or> l = 1)
           \<and> (startswith (fst fi) ''star'' \<longrightarrow> l = 0)
           \<and> (startswith (fst fi) ''galaxy'' \<longrightarrow> l = 1)
           \<and> gal_star s' = df_append (gal_star s) (Fin (of_int l) # concat (snd fi))"
  using assms star_not_galaxy [of "fst fi"]
  by (auto simp: load_one_def Let_def split: sum.splits option.splits if_splits)

lemma load_all_labels:
  assumes "load_all s files = Inr s'"
    and "\<forall>row\<in>set (gal_star s). row \<noteq> []"
    and "obj_id s = None \<or> obj_id s = Some 0 \<or> obj_id s = Some 1"
  shows "length (gal_star s') = length (gal_star s) + length files
     \<and> (\<forall>row\<in>set (gal_star s'). row \<noteq> [])
     \<and> (\<forall>i<length (gal_star s). hd (gal_star s' ! i) = hd (gal_star s ! i))
     \<and> (\<forall>i<length files.
          (hd (gal_star s' ! (length (gal_star s) + i)) = Fin 0
             \<or> hd (gal_star s' ! (length (gal_star s) + i)) = Fin 1)
          \<and> (startswith (fst (files ! i)) ''star'' \<longrightarrow>
                hd (gal_star s' ! (length (gal_star s) + i)) = Fin 0)
          \<and> (startswith (fst (files ! i)) ''galaxy'' \<longrightarrow>
                hd (gal_star s' ! (length (gal_star s) + i)) = Fin 1))"
  using assms
proof (induction files arbitrary: s)
  case Nil
  then show ?case by simp
next
  case (Cons fi rest)
  from Cons.prems(1) obtain s1 where s1: "load_one s fi = Inr s1" and rec: "load_all s1 rest = Inr s'"
    by (auto split: sum.splits)
  from load_one_result [OF s1 Cons.prems(3)] obtain l where
    l: "obj_id s1 = Some l" "l = 0 \<or> l = 1"
       "startswith (fst fi) ''star'' \<longrightarrow> l = 0"
       "startswith (fst fi) ''galaxy'' \<longrightarrow> l = 1"
       "gal_star s1 = df_append (gal_star s) (Fin (of_int l) # concat (snd fi))"
    by blast
  let ?n = "length (gal_star s)"
  have len1: "length (gal_star s1) = Suc ?n" using l(5) by (simp add: length_df_append)
  have ne1: "\<forall>row\<in>set (gal_star s1). row \<noteq> []"
    unfolding l(5) using Cons.prems(2) by (intro df_append_nonempty) simp_all
  have ob1: "obj_id s1 = None \<or> obj_id s1 = Some 0 \<or> obj_id s1 = Some 1" using l(1,2) by auto
  note ih = Cons.IH [OF rec ne1 ob1]
  have hd_new: "hd (gal_star s1 ! ?n) = Fin (of_int l)"
    unfolding l(5) by (simp add: df_append_hd_new)
  have hd_s': "hd (gal_star s' ! ?n) = Fin (of_int l)"
    using ih len1 hd_new by simp
  have A: "length (gal_star s') = ?n + length (fi # rest)" using ih len1 by simp
  have B: "\<forall>row\<in>set (gal_star s'). row \<noteq> []" using ih by blast
  have C: "\<forall>i<?n. hd (gal_star s' ! i) = hd (gal_star s ! i)"
  proof (intro allI impI)
    fix i assume i: "i < ?n"
    then have "gal_star s ! i \<noteq> []" using Cons.prems(2) by simp
    then have "hd (gal_star s1 ! i) = hd (gal_star s ! i)"
      unfolding l(5) using i by (simp add: df_append_hd_old)
    moreover have "hd (gal_star s' ! i) = hd (gal_star s1 ! i)" using ih i len1 by simp
    ultimately show "hd (gal_star s' ! i) = hd (gal_star s ! i)" by simp
  qed
  have D: "\<forall>i<length (fi # rest).
          (hd (gal_star s' ! (?n + i)) = Fin 0 \<or> hd (gal_star s' ! (?n + i)) = Fin 1)
          \<and> (startswith (fst ((fi # rest) ! i)) ''star'' \<longrightarrow> hd (gal_star s' ! (?n + i)) = Fin 0)
          \<and> (startswith (fst ((fi # rest) ! i)) ''galaxy'' \<longrightarrow> hd (gal_star s' ! (?n + i)) = Fin 1)"
  proof (intro allI impI)
    fix i assume i: "i < length (fi # rest)"
    show "(hd (gal_star s' ! (?n + i)) = Fin 0 \<or> hd (gal_star s' ! (?n + i)) = Fin 1)
          \<and> (startswith (fst ((fi # rest) ! i)) ''star'' \<longrightarrow> hd (gal_star s' ! (?n + i)) = Fin 0)
          \<and> (startswith (fst ((fi # rest) ! i)) ''galaxy'' \<longrightarrow> hd (gal_star s' ! (?n + i)) = Fin 1)"
    proof (cases i)
      case 0
      then show ?thesis using hd_s' l(2,3,4) by auto
    next
      case (Suc j)
      with i have j: "j < length rest" by simp
      have "length (gal_star s1) + j = ?n + i" using len1 Suc by simp
      with ih j Suc show ?thesis by auto
    qed
  qed
  from A B C D show ?case by blast
qed

lemma loader_labels:
  assumes "loader cutout_files = Inr s"
  shows "length (gal_star s) = length cutout_files
     \<and> (\<forall>i<length cutout_files.
          gal_star s ! i \<noteq> []
          \<and> (hd (gal_star s ! i) = Fin 0 \<or> hd (gal_star s ! i) = Fin 1)
          \<and> (startswith (fst (cutout_files ! i)) ''star'' \<longrightarrow> hd (gal_star s ! i) = Fin 0)
          \<and> (startswith (fst (cutout_files ! i)) ''galaxy'' \<longrightarrow> hd (gal_star s ! i) = Fin 1))"
proof -
  have "load_all loader_init cutout_files = Inr s" using assms by (simp add: loader_def)
  from load_all_labels [OF this] have
    h: "length (gal_star s) = length cutout_files"
       "\<forall>row\<in>set (gal_star s). row \<noteq> []"
       "\<forall>i<length cutout_files.
          (hd (gal_star s ! i) = Fin 0 \<or> hd (gal_star s ! i) = Fin 1)
          \<and> (startswith (fst (cutout_files ! i)) ''star'' \<longrightarrow> hd (gal_star s ! i) = Fin 0)
          \<and> (startswith (fst (cutout_files ! i)) ''galaxy'' \<longrightarrow> hd (gal_star s ! i) = Fin 1)"
    by (simp_all add: loader_init_def)
  then show ?thesis by simp
qed


lemma loader_labelled:
  assumes "loader cutout_files = Inr s"
  shows "labelled (gal_star s)"
  using loader_labels [OF assms] by (simp add: labelled_def list_all_length)

lemma apply_technique_labelled:
  assumes "apply_technique technique df = Inr tbl" "labelled df"
  shows "labelled tbl"
proof -
  have ne: "\<forall>row\<in>set df. row \<noteq> []" using assms(2) by (simp add: labelled_def list_all_iff)
  from apply_technique_heads [OF assms(1) ne] assms(2) show ?thesis
    by (simp add: labelled_def list_all_length)
qed

lemma technique_loop_labelled:
  assumes "technique_loop num ts df fs = (fs', r)" "labelled df"
    and "\<forall>name file. fs name = Some file \<longrightarrow> labelled file"
  shows "\<forall>name file. fs' name = Some file \<longrightarrow> labelled file"
  using assms
proof (induction ts arbitrary: num fs)
  case Nil
  then show ?case by simp
next
  case (Cons t rest)
  show ?case
  proof (cases "apply_technique t df")
    case (Inl e)
    with Cons.prems show ?thesis by simp
  next
    case (Inr tbl)
    then have lt: "labelled tbl" using Cons.prems(2) by (rule apply_technique_labelled)
    have rec: "technique_loop (num + 1) rest df (fs(artifact_name num \<mapsto> to_csv tbl)) = (fs', r)"
      using Cons.prems(1) Inr by simp
    have "\<forall>name file. (fs(artifact_name num \<mapsto> to_csv tbl)) name = Some file \<longrightarrow> labelled file"
      using Cons.prems(3) lt by (simp add: to_csv_def)
    from Cons.IH [OF rec Cons.prems(2) this] show ?thesis .
  qed
qed

lemma notebook_labelled:
  assumes "normalization_notebook cutout_files Map.empty = (fs, r)"
  shows "\<forall>name file. fs name = Some file \<longrightarrow> labelled file"
proof (cases "loader cutout_files")
  case (Inl e)
  with assms show ?thesis by (auto simp: normalization_notebook_def)
next
  case (Inr s)
  then have ls: "labelled (gal_star s)" by (rule loader_labelled)
  let ?fs1 = "Map.empty(''raw_image_data.csv'' \<mapsto> to_csv (gal_star s))"
  have fs1: "\<forall>name file. ?fs1 name = Some file \<longrightarrow> labelled file"
    using ls by (simp add: to_csv_def)
  show ?thesis
  proof (cases "corpus_stats s")
    case (Inl e)
    with assms Inr fs1 show ?thesis by (auto simp: normalization_notebook_def Let_def)
  next
    case st: (Inr st)
    with assms Inr have "technique_loop 0 (techniques st) (gal_star s) ?fs1 = (fs, r)"
      by (simp add: normalization_notebook_def Let_def)
    from technique_loop_labelled [OF this ls fs1] show ?thesis .
  qed
qed

lemma scenario_A_norm_2:
  "apply_technique norm_2
     [[Fin 0, Fin 1, Fin 2, Fin 3, Fin 4], [Fin 1, Fin 5, Fin 6, Fin 7, Fin 8]]
   = Inr [[Fin 0, Fin 0, Fin (1/3), Fin (2/3), Fin 1], [Fin 1, Fin 0, Fin (1/3), Fin (2/3), Fin 1]]"
  by (simp add: apply_technique_def norm_2_def np_amin_def np_amax_def df_append_def width_def
      pad_def)

lemma stale_listing:
  "list_cutouts [''star_0.fits'', ''gal_1.fits''] = ([''star_0.fits'', ''gal_1.fits''], 1, 1)"
  by (simp add: list_cutouts_def endswith_def startswith_def)

text \<open>
  Claim C8. The first field of every row is 0 or 1, but it is not always the label of the
  row's own cutout. The listing cell counts a file whose name starts with \<open>gal\<close> as a
  galaxy; the loader sets the label to 1 only for a name that starts with \<open>galaxy\<close>,
  and its two tests have no \<open>else\<close>. In a directory with \<open>star_0.fits\<close> and
  \<open>gal_1.fits\<close> the listing finds one star and one galaxy, and the loader gives the
  row of \<open>gal_1.fits\<close> the label 0 that it set for the star before it; with the two
  files in the other order the loader stops with a \<open>NameError\<close> at \<open>gal_1.fits\<close>.
  For comparison, the same cutout named \<open>galaxy_1.fits\<close> gets the label 1.
\<close>

theorem C8_stale_label:
  "list_cutouts [''star_0.fits'', ''gal_1.fits''] = ([''star_0.fits'', ''gal_1.fits''], 1, 1)
   \<and> loader [(''star_0.fits'', [[Fin 1, Fin 2], [Fin 3, Fin 4]]),
              (''gal_1.fits'', [[Fin 5, Fin 6], [Fin 7, Fin 8]])]
       = Inr \<lparr>obj_id = Some 0, min_pixel = [Fin 1, Fin 5], max_pixel = [Fin 4, Fin 8],
              gal_star = [[Fin 0, Fin 1, Fin 2, Fin 3, Fin 4], [Fin 0, Fin 5, Fin 6, Fin 7, Fin 8]]\<rparr>
   \<and> loader [(''gal_1.fits'', [[Fin 5, Fin 6], [Fin 7, Fin 8]]),
              (''star_0.fits'', [[Fin 1, Fin 2], [Fin 3, Fin 4]])]
       = Inl NameError
   \<and> loader [(''star_0.fits'', [[Fin 1, Fin 2], [Fin 3, Fin 4]]),
              (''galaxy_1.fits'', [[Fin 5, Fin 6], [Fin 7, Fin 8]])]
       = Inr \<lparr>obj_id = Some 1, min_pixel = [Fin 1, Fin 5], max_pixel = [Fin 4, Fin 8],
              gal_star = [[Fin 0, Fin 1, Fin 2, Fin 3, Fin 4], [Fin 1, Fin 5, Fin 6, Fin 7, Fin 8]]\<rparr>"
  by (simp add: stale_listing loader_def loader_init_def load_one_def startswith_def
      np_amin_def np_amax_def df_append_def width_def pad_def)


section \<open>Lengths of the vectors\<close>

lemma techniques_length:
  "data \<noteq> [] \<Longrightarrow>
   \<forall>technique\<in>set (techniques st). \<exists>out. technique data = Inr out \<and> length out = length data"
  by (cases data) (simp_all add: techniques_def norm_1_def norm_2_def norm_3_def norm_4_def
      norm_5_def np_amin_def np_amax_def)

lemma load_one_row:
  "load_one s fi = Inr s' \<Longrightarrow>
   \<exists>lab. gal_star s' = df_append (gal_star s) (lab # concat (snd fi))"
  by (auto simp: load_one_def Let_def split: sum.splits option.splits if_splits)

lemma load_all_width:
  assumes "load_all s files = Inr s'"
    and "\<forall>row\<in>set (gal_star s). length row = Suc n"
    and "\<forall>fi\<in>set files. length (concat (snd fi)) = n"
  shows "\<forall>row\<in>set (gal_star s'). length row = Suc n"
  using assms
proof (induction files arbitrary: s)
  case Nil
  then show ?case by simp
next
  case (Cons fi rest)
  from Cons.prems(1) obtain s1 where s1: "load_one s fi = Inr s1" and rec: "load_all s1 rest = Inr s'"
    by (auto split: sum.splits)
  from load_one_row [OF s1] obtain lab where
    l: "gal_star s1 = df_append (gal_star s) (lab # concat (snd fi))" by blast
  have "length (lab # concat (snd fi)) = Suc n" using Cons.prems(3) by simp
  then have "gal_star s1 = gal_star s @ [lab # concat (snd fi)]"
    unfolding l using Cons.prems(2) by (intro df_append_uniform) simp
  then have w1: "\<forall>row\<in>set (gal_star s1). length row = Suc n"
    using Cons.prems(2,3) by simp
  from Cons.IH [OF rec w1] Cons.prems(3) show ?case by simp
qed

lemma norm_rows_width:
  assumes "\<forall>row\<in>set df. length row = Suc n"
    and "\<forall>row\<in>set gal_star_norm. length row = Suc n"
    and "\<forall>d. length d = n \<longrightarrow> (\<exists>out. technique d = Inr out \<and> length out = n)"
  shows "\<exists>tbl. norm_rows technique gal_star_norm df = Inr tbl
           \<and> length tbl = length gal_star_norm + length df
           \<and> (\<forall>row\<in>set tbl. length row = Suc n)"
  using assms
proof (induction df arbitrary: gal_star_norm)
  case Nil
  then show ?case by simp
next
  case (Cons row rest)
  have lr: "length row = Suc n" using Cons.prems(1) by simp
  then have "length (drop 1 row) = n" by simp
  with Cons.prems(3) obtain out where out: "technique (drop 1 row) = Inr out" "length out = n"
    by blast
  let ?r = "take 1 row @ out"
  have lnew: "length ?r = Suc n" using lr out(2) by simp
  then have app: "df_append gal_star_norm ?r = gal_star_norm @ [?r]"
    using Cons.prems(2) by (intro df_append_uniform) simp
  have w: "\<forall>r\<in>set (gal_star_norm @ [?r]). length r = Suc n"
    using Cons.prems(2) lnew by auto
  have rest: "\<forall>r\<in>set rest. length r = Suc n" using Cons.prems(1) by simp
  from Cons.IH [OF rest w Cons.prems(3)] obtain tbl where
    "norm_rows technique (gal_star_norm @ [?r]) rest = Inr tbl"
    "length tbl = length (gal_star_norm @ [?r]) + length rest"
    "\<forall>r\<in>set tbl. length r = Suc n" by blast
  then show ?case using out(1) app by simp
qed

lemma length_concat_replicate: "length (concat (replicate k xs)) = k * length xs"
  by (induction k) simp_all

lemma np_amin_nonempty: "xs \<noteq> [] \<Longrightarrow> \<exists>m. np_amin xs = Inr m"
  by (cases xs) (simp_all add: np_amin_def)

lemma np_amax_nonempty: "xs \<noteq> [] \<Longrightarrow> \<exists>m. np_amax xs = Inr m"
  by (cases xs) (simp_all add: np_amax_def)

text \<open>
  Claim C9. Every technique maps a non-empty vector to a vector of the same length. When
  every cutout has 400 pixels, every row of the raw table has 400 values after its label,
  every technique succeeds on the raw table, and every row of its table has 400 values
  after its label.
\<close>

theorem C9_length_400:
  "(data \<noteq> [] \<longrightarrow>
     (\<forall>technique\<in>set (techniques st).
        \<exists>out. technique data = Inr out \<and> length out = length data))
   \<and> (loader cutout_files = Inr s
        \<and> (\<forall>fi\<in>set cutout_files. length (concat (snd fi)) = 400) \<longrightarrow>
       (\<forall>row\<in>set (gal_star s). length (drop 1 row) = 400)
       \<and> (\<forall>technique\<in>set (techniques st).
            \<exists>tbl. apply_technique technique (gal_star s) = Inr tbl
              \<and> length tbl = length (gal_star s)
              \<and> (\<forall>row\<in>set tbl. length (drop 1 row) = 400)))"
proof (intro conjI impI)
  assume "data \<noteq> []"
  then show "\<forall>technique\<in>set (techniques st).
        \<exists>out. technique data = Inr out \<and> length out = length data"
    by (rule techniques_length)
next
  assume h: "loader cutout_files = Inr s
        \<and> (\<forall>fi\<in>set cutout_files. length (concat (snd fi)) = 400)"
  then have "load_all loader_init cutout_files = Inr s" by (simp add: loader_def)
  from load_all_width [OF this, of 400] h
  have w: "\<forall>row\<in>set (gal_star s). length row = Suc 400" by (simp add: loader_init_def)
  then show "\<forall>row\<in>set (gal_star s). length (drop 1 row) = 400" by simp
  show "\<forall>technique\<in>set (techniques st).
            \<exists>tbl. apply_technique technique (gal_star s) = Inr tbl
              \<and> length tbl = length (gal_star s)
              \<and> (\<forall>row\<in>set tbl. length (drop 1 row) = 400)"
  proof
    fix technique assume t: "technique \<in> set (techniques st)"
    have tl: "\<forall>d. length d = 400 \<longrightarrow> (\<exists>out. technique d = Inr out \<and> length out = 400)"
    proof (intro allI impI)
      fix d :: "npfloat list" assume d: "length d = 400"
      then have "d \<noteq> []" by auto
      from techniques_length [OF this, of st] t d
      show "\<exists>out. technique d = Inr out \<and> length out = 400" by auto
    qed
    from norm_rows_width [OF w _ tl, of "[]"] obtain tbl where
      "norm_rows technique [] (gal_star s) = Inr tbl" "length tbl = length (gal_star s)"
      "\<forall>row\<in>set tbl. length row = Suc 400" by auto
    then show "\<exists>tbl. apply_technique technique (gal_star s) = Inr tbl
              \<and> length tbl = length (gal_star s)
              \<and> (\<forall>row\<in>set tbl. length (drop 1 row) = 400)"
      by (auto simp: apply_technique_def)
  qed
qed


theorem C9_length_400_witness:
  "\<exists>s. loader [uniform_cutout] = Inr s
     \<and> length (concat (snd uniform_cutout)) = 400
     \<and> (\<exists>out. norm_5 \<lparr>min_pixel_all = Fin 1, max_pixel_all = Fin 1\<rparr> (concat (snd uniform_cutout)) = Inr out
            \<and> length out = 400)
     \<and> (\<exists>tbl. apply_technique norm_1 (gal_star s) = Inr tbl
            \<and> length tbl = length (gal_star s)
            \<and> (\<forall>row\<in>set tbl. length (drop 1 row) = 400))"
proof -
  let ?st = "\<lparr>min_pixel_all = Fin 1, max_pixel_all = Fin 1\<rparr>"
  have len: "length (concat (snd uniform_cutout)) = 400"
    by (simp add: uniform_cutout_def length_concat_replicate)
  have ne: "concat (snd uniform_cutout) \<noteq> []"
  proof
    assume e: "concat (snd uniform_cutout) = []"
    show False using len unfolding e by simp
  qed
  from np_amin_nonempty [OF ne] obtain mn where mn: "np_amin (concat (snd uniform_cutout)) = Inr mn"
    by blast
  from np_amax_nonempty [OF ne] obtain mx where mx: "np_amax (concat (snd uniform_cutout)) = Inr mx"
    by blast
  have f: "fst uniform_cutout = ''star_0.fits''" by (simp add: uniform_cutout_def)
  let ?s = "\<lparr>obj_id = Some 0, min_pixel = [mn], max_pixel = [mx],
             gal_star = df_append [] (Fin 0 # concat (snd uniform_cutout))\<rparr>"
  have ld: "loader [uniform_cutout] = Inr ?s"
    by (simp add: loader_def loader_init_def load_one_def f startswith_def mn mx)
  have h: "loader [uniform_cutout] = Inr ?s
        \<and> (\<forall>fi\<in>set [uniform_cutout]. length (concat (snd fi)) = 400)"
    using ld len by simp
  note c = C9_length_400 [of "concat (snd uniform_cutout)" ?st "[uniform_cutout]" ?s]
  have n5: "norm_5 ?st \<in> set (techniques ?st)" and n1: "norm_1 \<in> set (techniques ?st)"
    by (simp_all add: techniques_def)
  have a: "\<exists>out. norm_5 ?st (concat (snd uniform_cutout)) = Inr out \<and> length out = 400"
    using c [THEN conjunct1, THEN mp, OF ne] n5 len by auto
  have b: "\<exists>tbl. apply_technique norm_1 (gal_star ?s) = Inr tbl
            \<and> length tbl = length (gal_star ?s)
            \<and> (\<forall>row\<in>set tbl. length (drop 1 row) = 400)"
    using c [THEN conjunct2, THEN mp, OF h] n1 by blast
  from ld len a b show ?thesis by blast
qed


section \<open>Degenerate samples in the technique loop\<close>







lemma artifact_names:
  "artifact_name 0 = ''norm_1_image_data.csv''"
  "artifact_name 1 = ''norm_2_image_data.csv''"
  "artifact_name 2 = ''norm_3_image_data.csv''"
  "artifact_name 3 = ''norm_4_image_data.csv''"
  "artifact_name 4 = ''norm_5_image_data.csv''"
  by (simp_all add: artifact_name_def)

lemma artifact_names_Suc:
  "artifact_name (Suc 0) = ''norm_2_image_data.csv''"
  "artifact_name (Suc (Suc 0)) = ''norm_3_image_data.csv''"
  "artifact_name (Suc (Suc (Suc 0))) = ''norm_4_image_data.csv''"
  "artifact_name (Suc (Suc (Suc (Suc 0)))) = ''norm_5_image_data.csv''"
proof -
  have e1: "Suc 0 = 1" and e2: "Suc (Suc 0) = 2" and e3: "Suc (Suc (Suc 0)) = 3"
    and e4: "Suc (Suc (Suc (Suc 0))) = 4" by simp_all
  show "artifact_name (Suc 0) = ''norm_2_image_data.csv''"
    by (simp only: e1 artifact_names)
  show "artifact_name (Suc (Suc 0)) = ''norm_3_image_data.csv''"
    by (simp only: e2 artifact_names)
  show "artifact_name (Suc (Suc (Suc 0))) = ''norm_4_image_data.csv''"
    by (simp only: e3 artifact_names)
  show "artifact_name (Suc (Suc (Suc (Suc 0)))) = ''norm_5_image_data.csv''"
    by (simp only: e4 artifact_names)
qed


















section \<open>Reloading the artifacts\<close>

text \<open>Whatever table is written, the reader takes its first row for the column names.\<close>

lemma read_csv_to_csv:
  "read_csv (to_csv df) =
     (case df of [] \<Rightarrow> Inl EmptyDataError | r # rs \<Rightarrow> Inr \<lparr>columns = r, rows = rs\<rparr>)"
  by (simp add: read_csv_def to_csv_def)

lemma apply_technique_total:
  assumes "\<forall>row\<in>set df. length row = Suc (Suc n)" "technique \<in> set (techniques st)"
  shows "\<exists>tbl. apply_technique technique df = Inr tbl"
proof -
  have tl: "\<forall>d. length d = Suc n \<longrightarrow> (\<exists>out. technique d = Inr out \<and> length out = Suc n)"
  proof (intro allI impI)
    fix d :: "npfloat list" assume d: "length d = Suc n"
    then have "d \<noteq> []" by auto
    from techniques_length [OF this, of st] assms(2) d
    show "\<exists>out. technique d = Inr out \<and> length out = Suc n" by auto
  qed
  from norm_rows_width [OF assms(1) _ tl, of "[]"] show ?thesis
    by (auto simp: apply_technique_def)
qed

lemma scenario_A_tables:
  "\<exists>t1 t2 t3 t4 t5.
     apply_technique norm_1 [[Fin 0, Fin 1, Fin 2, Fin 3, Fin 4], [Fin 1, Fin 5, Fin 6, Fin 7, Fin 8]] = Inr t1
   \<and> apply_technique norm_2 [[Fin 0, Fin 1, Fin 2, Fin 3, Fin 4], [Fin 1, Fin 5, Fin 6, Fin 7, Fin 8]] = Inr t2
   \<and> apply_technique (norm_3 st) [[Fin 0, Fin 1, Fin 2, Fin 3, Fin 4], [Fin 1, Fin 5, Fin 6, Fin 7, Fin 8]] = Inr t3
   \<and> apply_technique (norm_4 st) [[Fin 0, Fin 1, Fin 2, Fin 3, Fin 4], [Fin 1, Fin 5, Fin 6, Fin 7, Fin 8]] = Inr t4
   \<and> apply_technique (norm_5 st) [[Fin 0, Fin 1, Fin 2, Fin 3, Fin 4], [Fin 1, Fin 5, Fin 6, Fin 7, Fin 8]] = Inr t5"
proof -
  let ?df = "[[Fin 0, Fin 1, Fin 2, Fin 3, Fin 4], [Fin 1, Fin 5, Fin 6, Fin 7, Fin 8]]"
  have w: "\<forall>row\<in>set ?df. length row = Suc (Suc 3)" by simp
  have "\<forall>technique\<in>set (techniques st). \<exists>tbl. apply_technique technique ?df = Inr tbl"
    using apply_technique_total [OF w] by blast
  then show ?thesis unfolding techniques_def by simp
qed

text \<open>
  Claim C1 at the corpus of scenario A. The normalization notebook writes two rows to the
  raw artifact and to the artifact of technique 2. Reloaded as the classification
  notebook reloads them, each table has one row: the first row of the file has become the
  column names, and the row now at index 0 is the galaxy, with label 1, where the file
  has the star, with label 0.
\<close>

theorem C1_reload_drops_first_row:
  "snd (normalization_notebook scenario_A Map.empty) = None
   \<and> fst (normalization_notebook scenario_A Map.empty) ''raw_image_data.csv''
       = Some [[Fin 0, Fin 1, Fin 2, Fin 3, Fin 4], [Fin 1, Fin 5, Fin 6, Fin 7, Fin 8]]
   \<and> load_table (fst (normalization_notebook scenario_A Map.empty)) ''raw_image_data.csv''
       = Inr \<lparr>columns = [Fin 0, Fin 1, Fin 2, Fin 3, Fin 4],
              rows = [[Fin 1, Fin 5, Fin 6, Fin 7, Fin 8]]\<rparr>
   \<and> fst (normalization_notebook scenario_A Map.empty) ''norm_2_image_data.csv''
       = Some [[Fin 0, Fin 0, Fin (1/3), Fin (2/3), Fin 1], [Fin 1, Fin 0, Fin (1/3), Fin (2/3), Fin 1]]
   \<and> load_table (fst (normalization_notebook scenario_A Map.empty)) ''norm_2_image_data.csv''
       = Inr \<lparr>columns = [Fin 0, Fin 0, Fin (1/3), Fin (2/3), Fin 1],
              rows = [[Fin 1, Fin 0, Fin (1/3), Fin (2/3), Fin 1]]\<rparr>
   \<and> truth_labels_of \<lparr>columns = [Fin 0, Fin 1, Fin 2, Fin 3, Fin 4],
              rows = [[Fin 1, Fin 5, Fin 6, Fin 7, Fin 8]]\<rparr> = Inr [Fin 1]
   \<and> image_data_of \<lparr>columns = [Fin 0, Fin 1, Fin 2, Fin 3, Fin 4],
              rows = [[Fin 1, Fin 5, Fin 6, Fin 7, Fin 8]]\<rparr> = [[Fin 5, Fin 6, Fin 7, Fin 8]]"
proof -
  let ?st = "\<lparr>min_pixel_all = Fin 1, max_pixel_all = Fin 8\<rparr>"
  let ?df = "[[Fin 0, Fin 1, Fin 2, Fin 3, Fin 4], [Fin 1, Fin 5, Fin 6, Fin 7, Fin 8]]"
  let ?t2 = "[[Fin 0, Fin 0, Fin (1/3), Fin (2/3), Fin 1], [Fin 1, Fin 0, Fin (1/3), Fin (2/3), Fin 1]]"
  from scenario_A_tables [of ?st] obtain t1 t3 t4 t5 where
    t: "apply_technique norm_1 ?df = Inr t1"
       "apply_technique (norm_3 ?st) ?df = Inr t3" "apply_technique (norm_4 ?st) ?df = Inr t4"
       "apply_technique (norm_5 ?st) ?df = Inr t5"
    by blast
  have t2: "apply_technique norm_2 ?df = Inr ?t2" by (rule scenario_A_norm_2)
  have nb: "normalization_notebook scenario_A Map.empty =
     (Map.empty(''raw_image_data.csv'' \<mapsto> ?df,
        ''norm_1_image_data.csv'' \<mapsto> t1,
        ''norm_2_image_data.csv'' \<mapsto> ?t2, ''norm_3_image_data.csv'' \<mapsto> t3,
        ''norm_4_image_data.csv'' \<mapsto> t4, ''norm_5_image_data.csv'' \<mapsto> t5), None)"
    by (simp add: normalization_notebook_def scenario_A_loader scenario_A_stats techniques_def
        t t2 artifact_names artifact_names_Suc to_csv_def)
  show ?thesis
    by (simp add: nb load_table_def read_csv_def truth_labels_of_def image_data_of_def)
qed


section \<open>Label encoding\<close>

lemma onehot_loop_filter:
  "onehot_loop onehot vals =
     onehot @ map (\<lambda>v. if v = Fin 0 then [1, -1] else [-1, 1])
                (filter (\<lambda>v. v = Fin 0 \<or> v = Fin 1) vals)"
  by (induction vals arbitrary: onehot) simp_all

lemma filter_all: "(\<forall>v\<in>set xs. P v) \<Longrightarrow> filter P xs = xs"
  by (induction xs) simp_all

text \<open>
  Against claim C4 as stated: a label 2 raises nothing. The function returns, and the
  label is skipped, so the vector at position 1 of the result encodes the label at
  position 2 of the input.
\<close>

theorem C4_label_2_is_skipped:
  "generate_onehot_value [Fin 0, Fin 2, Fin 1] = [[1, -1], [-1, 1]]
   \<and> generate_onehot_value [Fin 2] = []"
  by (simp add: generate_onehot_value_def)

text \<open>
  Claim C4, as the code has it. The result is the encoding, in order, of the labels that
  are 0 or 1: \<open>[1, -1]\<close> for a 0 and \<open>[-1, 1]\<close> for a 1; every other label is skipped
  without an error. The encoding is position by position exactly when every label is 0 or
  1, and only then has the result the length of the input.
\<close>

theorem C4_onehot_of_binary_labels:
  "generate_onehot_value values =
     map (\<lambda>v. if v = Fin 0 then [1, -1] else [-1, 1])
       (filter (\<lambda>v. v = Fin 0 \<or> v = Fin 1) values)
   \<and> ((\<forall>v\<in>set values. v = Fin 0 \<or> v = Fin 1) \<longrightarrow>
        length (generate_onehot_value values) = length values
        \<and> (\<forall>i<length values.
              (values ! i = Fin 0 \<longrightarrow> generate_onehot_value values ! i = [1, -1])
              \<and> (values ! i = Fin 1 \<longrightarrow> generate_onehot_value values ! i = [-1, 1])))
   \<and> (length (generate_onehot_value values) = length values \<longrightarrow>
        (\<forall>v\<in>set values. v = Fin 0 \<or> v = Fin 1))"
proof (intro conjI impI)
  show e: "generate_onehot_value values =
     map (\<lambda>v. if v = Fin 0 then [1, -1] else [-1, 1])
       (filter (\<lambda>v. v = Fin 0 \<or> v = Fin 1) values)"
    by (simp add: generate_onehot_value_def onehot_loop_filter)
  { assume a: "\<forall>v\<in>set values. v = Fin 0 \<or> v = Fin 1"
    then have f: "filter (\<lambda>v. v = Fin 0 \<or> v = Fin 1) values = values" by (rule filter_all)
    show "length (generate_onehot_value values) = length values" by (simp add: e f)
    show "\<forall>i<length values.
              (values ! i = Fin 0 \<longrightarrow> generate_onehot_value values ! i = [1, -1])
              \<and> (values ! i = Fin 1 \<longrightarrow> generate_onehot_value values ! i = [-1, 1])"
      by (simp add: e f) }
  { assume l: "length (generate_onehot_value values) = length values"
    then have "length (filter (\<lambda>v. v = Fin 0 \<or> v = Fin 1) values) = length values"
      by (simp add: e)
    then show "\<forall>v\<in>set values. v = Fin 0 \<or> v = Fin 1"
      by (metis (mono_tags, lifting) filter_id_conv length_filter_less less_irrefl_nat filter_True) }
qed

theorem C4_onehot_of_binary_labels_witness:
  "generate_onehot_value [Fin 0, Fin 1, Fin 1] = [[1, -1], [-1, 1], [-1, 1]]
   \<and> length (generate_onehot_value [Fin 0, Fin 1, Fin 1]) = length [Fin 0, Fin 1, Fin 1]"
proof -
  have h: "\<forall>v\<in>set [Fin 0, Fin 1, Fin 1]. v = Fin 0 \<or> v = Fin 1" by simp
  note c = C4_onehot_of_binary_labels [of "[Fin 0, Fin 1, Fin 1]"]
  have a: "generate_onehot_value [Fin 0, Fin 1, Fin 1] = [[1, -1], [-1, 1], [-1, 1]]"
    using c [THEN conjunct1] by simp
  have b: "length (generate_onehot_value [Fin 0, Fin 1, Fin 1]) = length [Fin 0, Fin 1, Fin 1]"
    using c [THEN conjunct2, THEN conjunct1, THEN mp, OF h] by (rule conjunct1)
  from a b show ?thesis by (rule conjI)
qed


section \<open>The sweep and its trials\<close>

lemma run_trials_append:
  "run_trials ext (xs @ ys) n =
     (case run_trials ext xs n of (n', Some e) \<Rightarrow> (n', Some e) | (n', None) \<Rightarrow> run_trials ext ys n')"
  by (induction xs arbitrary: n) (simp_all split: sum.splits)

lemma run_trials_all_succeed:
  "(\<forall>j<length trials. \<exists>a. outcome ext n trials j = Inr a) \<Longrightarrow>
   run_trials ext trials n = (n + length trials, None)"
proof (induction trials arbitrary: n)
  case Nil
  then show ?case by simp
next
  case (Cons t rest)
  from Cons.prems have "\<exists>a. outcome ext n (t # rest) 0 = Inr a" by blast
  then obtain a where a: "run_classifier ext (fst t) (fst (snd t)) (snd (snd t)) (randint ext n) = Inr a"
    by (auto simp: outcome_def)
  have "\<forall>j<length rest. \<exists>a. outcome ext (n + 1) rest j = Inr a"
  proof (intro allI impI)
    fix j assume "j < length rest"
    then have "\<exists>a. outcome ext n (t # rest) (Suc j) = Inr a" using Cons.prems by auto
    then show "\<exists>a. outcome ext (n + 1) rest j = Inr a" by (simp add: outcome_def)
  qed
  from Cons.IH [OF this] a show ?case by simp
qed

lemma run_trials_first_failure:
  "k < length trials \<Longrightarrow> (\<forall>j<k. \<exists>a. outcome ext n trials j = Inr a) \<Longrightarrow>
   outcome ext n trials k = Inl e \<Longrightarrow>
   run_trials ext trials n = (n + k + 1, Some e)"
proof (induction trials arbitrary: n k)
  case Nil
  then show ?case by simp
next
  case (Cons t rest)
  show ?case
  proof (cases k)
    case 0
    with Cons.prems(3) show ?thesis by (simp add: outcome_def)
  next
    case (Suc k')
    from Cons.prems(2) Suc have "\<exists>a. outcome ext n (t # rest) 0 = Inr a" by blast
    then obtain a where a: "run_classifier ext (fst t) (fst (snd t)) (snd (snd t)) (randint ext n) = Inr a"
      by (auto simp: outcome_def)
    have k': "k' < length rest" using Cons.prems(1) Suc by simp
    have ok: "\<forall>j<k'. \<exists>a. outcome ext (n + 1) rest j = Inr a"
    proof (intro allI impI)
      fix j assume "j < k'"
      then have "\<exists>a. outcome ext n (t # rest) (Suc j) = Inr a" using Cons.prems(2) Suc by auto
      then show "\<exists>a. outcome ext (n + 1) rest j = Inr a" by (simp add: outcome_def)
    qed
    have bad: "outcome ext (n + 1) rest k' = Inl e"
      using Cons.prems(3) Suc by (simp add: outcome_def)
    from Cons.IH [OF k' ok bad] a Suc show ?thesis by simp
  qed
qed

lemma run_loop_flat:
  "run_loop ext runs img lbl ts idx s = (s', r) \<Longrightarrow>
     run_trials ext (replicate (runs + 1 - idx) (img, lbl, ts)) (rng s) = (rng s', r)
     \<and> accuracies s' = accuracies s \<and> all_acc_dataset s' = all_acc_dataset s
     \<and> length (acc s') = length (acc s) + (pbar s' - pbar s)
     \<and> pbar s \<le> pbar s'
     \<and> (r = None \<longrightarrow> pbar s' = pbar s + (runs + 1 - idx) \<and> rng s' = rng s + (runs + 1 - idx))
     \<and> (r \<noteq> None \<longrightarrow> pbar s' < pbar s + (runs + 1 - idx)
                    \<and> rng s' = rng s + (pbar s' - pbar s) + 1)"
proof (induction ext runs img lbl ts idx s rule: run_loop.induct)
  case (1 ext runs img lbl ts idx s)
  show ?case
  proof (cases "idx \<le> runs")
    case False
    with "1.prems" have "s' = s" "r = None" by (simp_all add: run_loop.simps)
    with False show ?thesis by simp
  next
    case True
    then have rep: "replicate (runs + 1 - idx) (img, lbl, ts)
        = (img, lbl, ts) # replicate (runs + 1 - (idx + 1)) (img, lbl, ts)"
      by (cases "runs + 1 - idx") (simp_all add: Suc_diff_le)
    show ?thesis
    proof (cases "run_classifier ext img lbl ts (randint ext (rng s))")
      case (Inl e)
      with True "1.prems" have "s' = s\<lparr>rng := rng s + 1\<rparr>" "r = Some e"
        by (simp_all add: run_loop.simps [of ext runs img lbl ts idx s])
      with True Inl rep show ?thesis by simp
    next
      case (Inr a)
      let ?s2 = "s\<lparr>rng := rng s + 1, acc := acc s @ [a], pbar := pbar s + 1\<rparr>"
      from True Inr "1.prems" have rec: "run_loop ext runs img lbl ts (idx + 1) ?s2 = (s', r)"
        by (simp add: run_loop.simps [of ext runs img lbl ts idx s])
      note ih = "1.IH" [OF True Inr rec]
      from ih True Inr rep show ?thesis by auto
    qed
  qed
qed


lemma size_loop_flat:
  "size_loop ext runs img lbl sizes s = (s', r) \<Longrightarrow>
     run_trials ext (concat (map (\<lambda>ts. replicate runs (img, lbl, ts)) sizes)) (rng s) = (rng s', r)
     \<and> accuracies s' = accuracies s
     \<and> pbar s \<le> pbar s'
     \<and> (r = None \<longrightarrow> pbar s' = pbar s + runs * length sizes
                    \<and> rng s' = rng s + runs * length sizes
                    \<and> length (all_acc_dataset s') = length (all_acc_dataset s) + length sizes)
     \<and> (r \<noteq> None \<longrightarrow>
           (\<exists>a b. a < length sizes \<and> b < runs \<and> pbar s' = pbar s + runs * a + b
                 \<and> length (all_acc_dataset s') = length (all_acc_dataset s) + a
                 \<and> length (acc s') = b)
           \<and> rng s' = rng s + (pbar s' - pbar s) + 1)"
proof (induction sizes arbitrary: s)
  case Nil
  then show ?case by simp
next
  case (Cons ts rest)
  let ?s0 = "s\<lparr>acc := []\<rparr>"
  obtain s1 r1 where rl: "run_loop ext runs img lbl ts 1 ?s0 = (s1, r1)" by force
  note f = run_loop_flat [OF rl]
  show ?case
  proof (cases r1)
    case (Some e)
    with Cons.prems rl have eq: "s' = s1" "r = Some e" by simp_all
    have rt: "run_trials ext (concat (map (\<lambda>ts. replicate runs (img, lbl, ts)) (ts # rest))) (rng s)
                = (rng s1, Some e)"
      using f Some by (simp add: run_trials_append)
    have ex: "\<exists>a b. a < length (ts # rest) \<and> b < runs \<and> pbar s1 = pbar s + runs * a + b
                 \<and> length (all_acc_dataset s1) = length (all_acc_dataset s) + a
                 \<and> length (acc s1) = b"
      using f Some by (intro exI [of _ 0] exI [of _ "pbar s1 - pbar s"]) auto
    from rt ex f Some show ?thesis unfolding eq by simp
  next
    case None
    let ?s2 = "s1\<lparr>all_acc_dataset := all_acc_dataset s1 @ [np_average (acc s1)]\<rparr>"
    from Cons.prems rl None have rec: "size_loop ext runs img lbl rest ?s2 = (s', r)" by simp
    note ih = Cons.IH [OF rec]
    have rt: "run_trials ext (concat (map (\<lambda>ts. replicate runs (img, lbl, ts)) (ts # rest))) (rng s)
                = (rng s', r)"
      using f None ih by (simp add: run_trials_append)
    have p1: "pbar s1 = pbar s + runs" "rng s1 = rng s + runs"
      "all_acc_dataset s1 = all_acc_dataset s" "accuracies s1 = accuracies s"
      using f None by simp_all
    have A: "accuracies s' = accuracies s" "pbar s \<le> pbar s'" using ih p1 by simp_all
    have B: "r = None \<longrightarrow> pbar s' = pbar s + runs * length (ts # rest)
                    \<and> rng s' = rng s + runs * length (ts # rest)
                    \<and> length (all_acc_dataset s') = length (all_acc_dataset s) + length (ts # rest)"
      using ih p1 by simp
    have C: "r \<noteq> None \<longrightarrow>
           (\<exists>a b. a < length (ts # rest) \<and> b < runs \<and> pbar s' = pbar s + runs * a + b
                 \<and> length (all_acc_dataset s') = length (all_acc_dataset s) + a
                 \<and> length (acc s') = b)
           \<and> rng s' = rng s + (pbar s' - pbar s) + 1"
    proof
      assume rn: "r \<noteq> None"
      with ih obtain a b where ab: "a < length rest" "b < runs" "pbar s' = pbar ?s2 + runs * a + b"
        "length (all_acc_dataset s') = length (all_acc_dataset ?s2) + a" "length (acc s') = b"
        and rg: "rng s' = rng ?s2 + (pbar s' - pbar ?s2) + 1" by blast
      have "Suc a < length (ts # rest) \<and> b < runs \<and> pbar s' = pbar s + runs * Suc a + b
                 \<and> length (all_acc_dataset s') = length (all_acc_dataset s) + Suc a
                 \<and> length (acc s') = b"
        using ab p1 by simp
      then have ex: "\<exists>a b. a < length (ts # rest) \<and> b < runs \<and> pbar s' = pbar s + runs * a + b
                 \<and> length (all_acc_dataset s') = length (all_acc_dataset s) + a
                 \<and> length (acc s') = b" by blast
      have "rng s' = rng s + (pbar s' - pbar s) + 1" using rg p1 ab(3) by simp
      with ex show "(\<exists>a b. a < length (ts # rest) \<and> b < runs \<and> pbar s' = pbar s + runs * a + b
                 \<and> length (all_acc_dataset s') = length (all_acc_dataset s) + a
                 \<and> length (acc s') = b)
           \<and> rng s' = rng s + (pbar s' - pbar s) + 1" by simp
    qed
    from rt A B C show ?thesis by blast
  qed
qed


lemma schedule_Cons:
  "schedule runs sizes (d # rest) =
     concat (map (\<lambda>ts. replicate runs (image_data_of (fst d), map hd (rows (fst d)), ts)) sizes)
     @ schedule runs sizes rest"
  by (simp add: schedule_def)

lemma data_loop_flat:
  "data_loop ext runs sizes dfs s = (s', r) \<Longrightarrow> \<forall>d\<in>set dfs. columns (fst d) \<noteq> [] \<Longrightarrow>
     run_trials ext (schedule runs sizes dfs) (rng s) = (rng s', r)
     \<and> pbar s \<le> pbar s'
     \<and> (r = None \<longrightarrow> pbar s' = pbar s + runs * length sizes * length dfs
            \<and> rng s' = rng s + runs * length sizes * length dfs
            \<and> (\<exists>cols. accuracies s' = accuracies s @ cols \<and> map fst cols = map snd dfs
                  \<and> (\<forall>x\<in>set cols. length (snd x) = length sizes)))
     \<and> (r \<noteq> None \<longrightarrow>
           (\<exists>c a b cols. c < length dfs \<and> a < length sizes \<and> b < runs
                 \<and> pbar s' = pbar s + runs * (length sizes * c + a) + b
                 \<and> accuracies s' = accuracies s @ cols \<and> map fst cols = map snd (take c dfs)
                 \<and> (\<forall>x\<in>set cols. length (snd x) = length sizes)
                 \<and> length (all_acc_dataset s') = a \<and> length (acc s') = b)
           \<and> rng s' = rng s + (pbar s' - pbar s) + 1)"
proof (induction dfs arbitrary: s)
  case Nil
  then show ?case by (simp add: schedule_def)
next
  case (Cons d rest)
  obtain data data_label where d: "d = (data, data_label)" by (cases d)
  have tl: "truth_labels_of data = Inr (map hd (rows data))"
    using Cons.prems(2) d by (simp add: truth_labels_of_def)
  let ?s0 = "s\<lparr>all_acc_dataset := []\<rparr>"
  obtain s1 r1 where sl:
    "size_loop ext runs (image_data_of data) (map hd (rows data)) sizes ?s0 = (s1, r1)" by force
  note f = size_loop_flat [OF sl]
  have cols_rest: "\<forall>d\<in>set rest. columns (fst d) \<noteq> []" using Cons.prems(2) by simp
  show ?case
  proof (cases r1)
    case (Some e)
    with Cons.prems(1) sl tl d have eq: "s' = s1" "r = Some e" by (simp_all add: Let_def)
    have rt: "run_trials ext (schedule runs sizes (d # rest)) (rng s) = (rng s1, Some e)"
      using f Some d by (simp add: schedule_Cons run_trials_append)
    from f Some obtain a b where ab: "a < length sizes" "b < runs" "pbar s1 = pbar s + runs * a + b"
      "length (all_acc_dataset s1) = a" "length (acc s1) = b" by auto
    have ex: "\<exists>c a b cols. c < length (d # rest) \<and> a < length sizes \<and> b < runs
                 \<and> pbar s1 = pbar s + runs * (length sizes * c + a) + b
                 \<and> accuracies s1 = accuracies s @ cols \<and> map fst cols = map snd (take c (d # rest))
                 \<and> (\<forall>x\<in>set cols. length (snd x) = length sizes)
                 \<and> length (all_acc_dataset s1) = a \<and> length (acc s1) = b"
      using ab f by (intro exI [of _ 0] exI [of _ a] exI [of _ b] exI [of _ "[]"]) simp
    from rt ex f Some show ?thesis unfolding eq by simp
  next
    case None
    let ?s2 = "s1\<lparr>accuracies := accuracies s1 @ [(data_label, all_acc_dataset s1)]\<rparr>"
    from Cons.prems(1) sl tl d None have rec: "data_loop ext runs sizes rest ?s2 = (s', r)"
      by (simp add: Let_def)
    note ih = Cons.IH [OF rec cols_rest]
    have p1: "pbar s1 = pbar s + runs * length sizes" "rng s1 = rng s + runs * length sizes"
      "length (all_acc_dataset s1) = length sizes" "accuracies s1 = accuracies s"
      using f None by simp_all
    have rt: "run_trials ext (schedule runs sizes (d # rest)) (rng s) = (rng s', r)"
      using f None ih d by (simp add: schedule_Cons run_trials_append)
    have A: "pbar s \<le> pbar s'" using ih p1 by simp
    have B: "r = None \<longrightarrow> pbar s' = pbar s + runs * length sizes * length (d # rest)
            \<and> rng s' = rng s + runs * length sizes * length (d # rest)
            \<and> (\<exists>cols. accuracies s' = accuracies s @ cols \<and> map fst cols = map snd (d # rest)
                  \<and> (\<forall>x\<in>set cols. length (snd x) = length sizes))"
    proof
      assume rn: "r = None"
      with ih obtain cols where c: "accuracies s' = accuracies ?s2 @ cols"
        "map fst cols = map snd rest" "\<forall>x\<in>set cols. length (snd x) = length sizes"
        and p: "pbar s' = pbar ?s2 + runs * length sizes * length rest"
               "rng s' = rng ?s2 + runs * length sizes * length rest" by blast
      let ?cols = "(data_label, all_acc_dataset s1) # cols"
      have "accuracies s' = accuracies s @ ?cols \<and> map fst ?cols = map snd (d # rest)
                  \<and> (\<forall>x\<in>set ?cols. length (snd x) = length sizes)"
        using c p1 d by simp
      then have "\<exists>cols. accuracies s' = accuracies s @ cols \<and> map fst cols = map snd (d # rest)
                  \<and> (\<forall>x\<in>set cols. length (snd x) = length sizes)" by blast
      moreover have "pbar s' = pbar s + runs * length sizes * length (d # rest)"
        "rng s' = rng s + runs * length sizes * length (d # rest)"
        using p p1 by simp_all
      ultimately show "pbar s' = pbar s + runs * length sizes * length (d # rest)
            \<and> rng s' = rng s + runs * length sizes * length (d # rest)
            \<and> (\<exists>cols. accuracies s' = accuracies s @ cols \<and> map fst cols = map snd (d # rest)
                  \<and> (\<forall>x\<in>set cols. length (snd x) = length sizes))" by blast
    qed
    have C: "r \<noteq> None \<longrightarrow>
           (\<exists>c a b cols. c < length (d # rest) \<and> a < length sizes \<and> b < runs
                 \<and> pbar s' = pbar s + runs * (length sizes * c + a) + b
                 \<and> accuracies s' = accuracies s @ cols \<and> map fst cols = map snd (take c (d # rest))
                 \<and> (\<forall>x\<in>set cols. length (snd x) = length sizes)
                 \<and> length (all_acc_dataset s') = a \<and> length (acc s') = b)
           \<and> rng s' = rng s + (pbar s' - pbar s) + 1"
    proof
      assume rn: "r \<noteq> None"
      with ih obtain c a b cols where c: "c < length rest" "a < length sizes" "b < runs"
        "pbar s' = pbar ?s2 + runs * (length sizes * c + a) + b"
        "accuracies s' = accuracies ?s2 @ cols" "map fst cols = map snd (take c rest)"
        "\<forall>x\<in>set cols. length (snd x) = length sizes"
        "length (all_acc_dataset s') = a" "length (acc s') = b"
        and rg: "rng s' = rng ?s2 + (pbar s' - pbar ?s2) + 1" by blast
      let ?cols = "(data_label, all_acc_dataset s1) # cols"
      have pb: "pbar s' = pbar s + runs * (length sizes * Suc c + a) + b"
        using c(4) p1 by (simp add: algebra_simps)
      have "Suc c < length (d # rest) \<and> a < length sizes \<and> b < runs
                 \<and> pbar s' = pbar s + runs * (length sizes * Suc c + a) + b
                 \<and> accuracies s' = accuracies s @ ?cols
                 \<and> map fst ?cols = map snd (take (Suc c) (d # rest))
                 \<and> (\<forall>x\<in>set ?cols. length (snd x) = length sizes)
                 \<and> length (all_acc_dataset s') = a \<and> length (acc s') = b"
        using c pb p1 d by simp
      then have ex: "\<exists>c a b cols. c < length (d # rest) \<and> a < length sizes \<and> b < runs
                 \<and> pbar s' = pbar s + runs * (length sizes * c + a) + b
                 \<and> accuracies s' = accuracies s @ cols \<and> map fst cols = map snd (take c (d # rest))
                 \<and> (\<forall>x\<in>set cols. length (snd x) = length sizes)
                 \<and> length (all_acc_dataset s') = a \<and> length (acc s') = b" by blast
      have "rng s' = rng s + (pbar s' - pbar s) + 1" using rg p1 c(4) by simp
      with ex show "(\<exists>c a b cols. c < length (d # rest) \<and> a < length sizes \<and> b < runs
                 \<and> pbar s' = pbar s + runs * (length sizes * c + a) + b
                 \<and> accuracies s' = accuracies s @ cols \<and> map fst cols = map snd (take c (d # rest))
                 \<and> (\<forall>x\<in>set cols. length (snd x) = length sizes)
                 \<and> length (all_acc_dataset s') = a \<and> length (acc s') = b)
           \<and> rng s' = rng s + (pbar s' - pbar s) + 1" by simp
    qed
    from rt A B C show ?thesis by blast
  qed
qed


lemma run_classifier_propagates:
  "train_test_split ext image_data truth_labels test_size state = Inr (X_train, X_test, y_train, y_test) \<Longrightarrow>
   do_classify ext X_test X_train (generate_onehot_value y_train) 30 = Inl e \<Longrightarrow>
   run_classifier ext image_data truth_labels test_size state = Inl e"
  by (simp add: run_classifier_def)

lemma failing_ext_trial:
  "run_classifier failing_ext image_data truth_labels test_size state =
     (if state = 4 then Inl ExternalClassifierError else Inr (Fin 100))"
  by (simp add: run_classifier_def failing_ext_def generate_onehot_value_def np_argmax_def
      np_amax_def count_equal_def)

lemma failing_ext_outcome:
  "outcome failing_ext 0 trials j = (if j = 4 then Inl ExternalClassifierError else Inr (Fin 100))"
  by (simp add: outcome_def failing_ext_trial) (simp add: failing_ext_def)

lemma length_schedule_one: "length (schedule num_runs test_size_values one_dataset) = 18"
  by (simp add: schedule_def num_runs_def test_size_values_def one_dataset_def)

lemma trial_values_run_trials:
  "(snd (run_trials ext xs n) = None \<longleftrightarrow> length (trial_values ext xs n) = length xs)
   \<and> length (trial_values ext xs n) \<le> length xs"
proof (induction xs arbitrary: n)
  case Nil
  show ?case by simp
next
  case (Cons t rest)
  show ?case
  proof (cases "run_classifier ext (fst t) (fst (snd t)) (snd (snd t)) (randint ext n)")
    case (Inl e)
    then show ?thesis by simp
  next
    case (Inr a)
    with Cons [of "n + 1"] show ?thesis by simp
  qed
qed

lemma trial_values_append:
  "trial_values ext (xs @ ys) n =
     (if snd (run_trials ext xs n) = None
      then trial_values ext xs n @ trial_values ext ys (n + length xs)
      else trial_values ext xs n)"
proof (induction xs arbitrary: n)
  case Nil
  show ?case by simp
next
  case (Cons t rest)
  show ?case
  proof (cases "run_classifier ext (fst t) (fst (snd t)) (snd (snd t)) (randint ext n)")
    case (Inl e)
    then show ?thesis by simp
  next
    case (Inr a)
    with Cons [of "n + 1"] show ?thesis by simp
  qed
qed

lemma trial_values_first_failure:
  "k < length trials \<Longrightarrow> (\<forall>j<k. \<exists>a. outcome ext n trials j = Inr a) \<Longrightarrow>
   outcome ext n trials k = Inl e \<Longrightarrow>
   length (trial_values ext trials n) = k
   \<and> (\<forall>j<k. outcome ext n trials j = Inr (trial_values ext trials n ! j))"
proof (induction trials arbitrary: n k)
  case Nil
  then show ?case by simp
next
  case (Cons t rest)
  show ?case
  proof (cases k)
    case 0
    with Cons.prems(3) show ?thesis by (simp add: outcome_def)
  next
    case (Suc k')
    from Cons.prems(2) Suc have "\<exists>a. outcome ext n (t # rest) 0 = Inr a" by blast
    then obtain a where a: "run_classifier ext (fst t) (fst (snd t)) (snd (snd t)) (randint ext n) = Inr a"
      by (auto simp: outcome_def)
    have k': "k' < length rest" using Cons.prems(1) Suc by simp
    have ok: "\<forall>j<k'. \<exists>a. outcome ext (n + 1) rest j = Inr a"
    proof (intro allI impI)
      fix j assume "j < k'"
      then have "\<exists>a. outcome ext n (t # rest) (Suc j) = Inr a" using Cons.prems(2) Suc by auto
      then show "\<exists>a. outcome ext (n + 1) rest j = Inr a" by (simp add: outcome_def)
    qed
    have bad: "outcome ext (n + 1) rest k' = Inl e"
      using Cons.prems(3) Suc by (simp add: outcome_def)
    note ih = Cons.IH [OF k' ok bad]
    have tv: "trial_values ext (t # rest) n = a # trial_values ext rest (n + 1)"
      using a by simp
    have L: "length (trial_values ext (t # rest) n) = k" using ih Suc tv by simp
    have V: "\<forall>j<k. outcome ext n (t # rest) j = Inr (trial_values ext (t # rest) n ! j)"
    proof (intro allI impI)
      fix j assume j: "j < k"
      show "outcome ext n (t # rest) j = Inr (trial_values ext (t # rest) n ! j)"
      proof (cases j)
        case 0
        then show ?thesis using a tv by (simp add: outcome_def)
      next
        case (Suc i)
        with j \<open>k = Suc k'\<close> have "i < k'" by simp
        with ih have "outcome ext (n + 1) rest i = Inr (trial_values ext rest (n + 1) ! i)" by blast
        then show ?thesis using Suc tv by (simp add: outcome_def)
      qed
    qed
    from L V show ?thesis by blast
  qed
qed

lemma run_loop_values:
  "run_loop ext runs img lbl ts idx s = (s', r) \<Longrightarrow>
     acc s' = acc s @ trial_values ext (replicate (runs + 1 - idx) (img, lbl, ts)) (rng s)"
proof (induction ext runs img lbl ts idx s rule: run_loop.induct)
  case (1 ext runs img lbl ts idx s)
  show ?case
  proof (cases "idx \<le> runs")
    case False
    with "1.prems" have "s' = s" "r = None" by (simp_all add: run_loop.simps)
    with False show ?thesis by simp
  next
    case True
    then have rep: "replicate (runs + 1 - idx) (img, lbl, ts)
        = (img, lbl, ts) # replicate (runs + 1 - (idx + 1)) (img, lbl, ts)"
      by (cases "runs + 1 - idx") (simp_all add: Suc_diff_le)
    show ?thesis
    proof (cases "run_classifier ext img lbl ts (randint ext (rng s))")
      case (Inl e)
      with True "1.prems" have "s' = s\<lparr>rng := rng s + 1\<rparr>" "r = Some e"
        by (simp_all add: run_loop.simps [of ext runs img lbl ts idx s])
      with True Inl rep show ?thesis by simp
    next
      case (Inr a)
      let ?s2 = "s\<lparr>rng := rng s + 1, acc := acc s @ [a], pbar := pbar s + 1\<rparr>"
      from True Inr "1.prems" have rec: "run_loop ext runs img lbl ts (idx + 1) ?s2 = (s', r)"
        by (simp add: run_loop.simps [of ext runs img lbl ts idx s])
      note ih = "1.IH" [OF True Inr rec]
      from ih True Inr rep show ?thesis by simp
    qed
  qed
qed

lemma size_loop_values:
  "size_loop ext runs img lbl sizes s = (s', r) \<Longrightarrow>
     \<exists>gs. (\<forall>g\<in>set gs. length g = runs)
        \<and> all_acc_dataset s' = all_acc_dataset s @ map np_average gs
        \<and> trial_values ext (concat (map (\<lambda>ts. replicate runs (img, lbl, ts)) sizes)) (rng s)
            = concat gs @ (if r = None then [] else acc s')"
proof (induction sizes arbitrary: s)
  case Nil
  then show ?case by simp
next
  case (Cons ts rest)
  let ?s0 = "s\<lparr>acc := []\<rparr>"
  let ?rep = "replicate runs (img, lbl, ts)"
  let ?T = "concat (map (\<lambda>ts. replicate runs (img, lbl, ts)) rest)"
  obtain s1 r1 where rl: "run_loop ext runs img lbl ts 1 ?s0 = (s1, r1)" by force
  note f = run_loop_flat [OF rl]
  from run_loop_values [OF rl] have v: "acc s1 = trial_values ext ?rep (rng s)" by simp
  from f have rt: "run_trials ext ?rep (rng s) = (rng s1, r1)" by simp
  show ?case
  proof (cases r1)
    case (Some e)
    with Cons.prems rl have eq: "s' = s1" "r = Some e" by simp_all
    have "trial_values ext (?rep @ ?T) (rng s) = acc s1"
      using rt Some v by (simp add: trial_values_append)
    then show ?thesis using f unfolding eq by (intro exI [of _ "[]"]) simp
  next
    case None
    let ?s2 = "s1\<lparr>all_acc_dataset := all_acc_dataset s1 @ [np_average (acc s1)]\<rparr>"
    from Cons.prems rl None have rec: "size_loop ext runs img lbl rest ?s2 = (s', r)" by simp
    from Cons.IH [OF rec] obtain gs where gs: "\<forall>g\<in>set gs. length g = runs"
      "all_acc_dataset s' = all_acc_dataset ?s2 @ map np_average gs"
      "trial_values ext ?T (rng ?s2) = concat gs @ (if r = None then [] else acc s')" by blast
    have p1: "rng s1 = rng s + runs" "all_acc_dataset s1 = all_acc_dataset s"
      using f None by simp_all
    have la: "length (acc s1) = runs"
      using trial_values_run_trials [of ext ?rep "rng s"] rt None v by simp
    have tv: "trial_values ext (?rep @ ?T) (rng s) = acc s1 @ trial_values ext ?T (rng s + runs)"
      using rt None v by (simp add: trial_values_append)
    have "(\<forall>g\<in>set (acc s1 # gs). length g = runs)
        \<and> all_acc_dataset s' = all_acc_dataset s @ map np_average (acc s1 # gs)
        \<and> trial_values ext (concat (map (\<lambda>ts. replicate runs (img, lbl, ts)) (ts # rest))) (rng s)
            = concat (acc s1 # gs) @ (if r = None then [] else acc s')"
      using gs la tv p1 by simp
    then show ?thesis by blast
  qed
qed

lemma data_loop_values:
  "data_loop ext runs sizes dfs s = (s', r) \<Longrightarrow> \<forall>d\<in>set dfs. columns (fst d) \<noteq> [] \<Longrightarrow>
     \<exists>cgs gs. length cgs \<le> length dfs
        \<and> (\<forall>cg\<in>set cgs. length cg = length sizes \<and> (\<forall>g\<in>set cg. length g = runs))
        \<and> (\<forall>g\<in>set gs. length g = runs)
        \<and> accuracies s' = accuracies s
             @ zip (map snd (take (length cgs) dfs)) (map (map np_average) cgs)
        \<and> (r \<noteq> None \<longrightarrow> all_acc_dataset s' = map np_average gs)
        \<and> trial_values ext (schedule runs sizes dfs) (rng s)
            = concat (map concat cgs) @ (if r = None then [] else concat gs @ acc s')"
proof (induction dfs arbitrary: s)
  case Nil
  then have "s' = s" "r = None" by simp_all
  then show ?case by (intro exI [of _ "[]"]) (simp add: schedule_def)
next
  case (Cons d rest)
  obtain data data_label where d: "d = (data, data_label)" by (cases d)
  have tl: "truth_labels_of data = Inr (map hd (rows data))"
    using Cons.prems(2) d by (simp add: truth_labels_of_def)
  let ?s0 = "s\<lparr>all_acc_dataset := []\<rparr>"
  let ?D = "concat (map (\<lambda>ts. replicate runs (image_data_of data, map hd (rows data), ts)) sizes)"
  obtain s1 r1 where sl:
    "size_loop ext runs (image_data_of data) (map hd (rows data)) sizes ?s0 = (s1, r1)" by force
  note f = size_loop_flat [OF sl]
  from size_loop_values [OF sl] obtain gs where gs: "\<forall>g\<in>set gs. length g = runs"
    "all_acc_dataset s1 = map np_average gs"
    "trial_values ext ?D (rng s) = concat gs @ (if r1 = None then [] else acc s1)" by auto
  from f have rt: "run_trials ext ?D (rng s) = (rng s1, r1)" by simp
  have sch: "schedule runs sizes (d # rest) = ?D @ schedule runs sizes rest"
    using d by (simp add: schedule_Cons)
  have cols_rest: "\<forall>d\<in>set rest. columns (fst d) \<noteq> []" using Cons.prems(2) by simp
  show ?case
  proof (cases r1)
    case (Some e)
    with Cons.prems(1) sl tl d have eq: "s' = s1" "r = Some e" by (simp_all add: Let_def)
    have tv: "trial_values ext (schedule runs sizes (d # rest)) (rng s) = concat gs @ acc s1"
      unfolding sch using rt Some gs(3) by (simp add: trial_values_append)
    have "length ([] :: npfloat list list list) \<le> length (d # rest)
        \<and> (\<forall>cg\<in>set ([] :: npfloat list list list). length cg = length sizes \<and> (\<forall>g\<in>set cg. length g = runs))
        \<and> (\<forall>g\<in>set gs. length g = runs)
        \<and> accuracies s1 = accuracies s
             @ zip (map snd (take (length ([] :: npfloat list list list)) (d # rest))) (map (map np_average) [])
        \<and> (Some e \<noteq> None \<longrightarrow> all_acc_dataset s1 = map np_average gs)
        \<and> trial_values ext (schedule runs sizes (d # rest)) (rng s)
            = concat (map concat []) @ (if Some e = None then [] else concat gs @ acc s1)"
      using gs tv f by simp
    then show ?thesis unfolding eq by blast
  next
    case None
    let ?s2 = "s1\<lparr>accuracies := accuracies s1 @ [(data_label, all_acc_dataset s1)]\<rparr>"
    from Cons.prems(1) sl tl d None have rec: "data_loop ext runs sizes rest ?s2 = (s', r)"
      by (simp add: Let_def)
    from Cons.IH [OF rec cols_rest] obtain cgs gs' where ih:
      "length cgs \<le> length rest"
      "\<forall>cg\<in>set cgs. length cg = length sizes \<and> (\<forall>g\<in>set cg. length g = runs)"
      "\<forall>g\<in>set gs'. length g = runs"
      "accuracies s' = accuracies ?s2
             @ zip (map snd (take (length cgs) rest)) (map (map np_average) cgs)"
      "r \<noteq> None \<longrightarrow> all_acc_dataset s' = map np_average gs'"
      "trial_values ext (schedule runs sizes rest) (rng ?s2)
            = concat (map concat cgs) @ (if r = None then [] else concat gs' @ acc s')"
      by blast
    have p1: "rng s1 = rng s + runs * length sizes"
      "length (all_acc_dataset s1) = length sizes" "accuracies s1 = accuracies s"
      using f None by simp_all
    have lg: "length gs = length sizes" using p1(2) gs(2) by simp
    have lD: "length ?D = runs * length sizes" by (induction sizes) simp_all
    have tv: "trial_values ext (schedule runs sizes (d # rest)) (rng s)
        = concat gs @ trial_values ext (schedule runs sizes rest) (rng s + runs * length sizes)"
      unfolding sch using rt None gs(3) lD by (simp add: trial_values_append)
    have "length (gs # cgs) \<le> length (d # rest)
        \<and> (\<forall>cg\<in>set (gs # cgs). length cg = length sizes \<and> (\<forall>g\<in>set cg. length g = runs))
        \<and> (\<forall>g\<in>set gs'. length g = runs)
        \<and> accuracies s' = accuracies s
             @ zip (map snd (take (length (gs # cgs)) (d # rest))) (map (map np_average) (gs # cgs))
        \<and> (r \<noteq> None \<longrightarrow> all_acc_dataset s' = map np_average gs')
        \<and> trial_values ext (schedule runs sizes (d # rest)) (rng s)
            = concat (map concat (gs # cgs)) @ (if r = None then [] else concat gs' @ acc s')"
      using ih gs lg tv p1 d by simp
    then show ?thesis by blast
  qed
qed

text \<open>
  Against claim C6 as stated: in the sweep over one dataset whose fifth trial fails, the
  classifier's error ends the sweep. Five of the eighteen trials have been started and
  four completed; the failing trial has left no record, and the table of accuracies has
  no column for the dataset.
\<close>

theorem C6_failure_ends_the_sweep:
  "evaluation_sweep failing_ext one_dataset =
     (\<lparr>accuracies = [(''test_size'', map Fin test_size_values)],
       all_acc_dataset = [Fin 100], acc = [Fin 100], rng = 5, pbar = 4\<rparr>,
      Some ExternalClassifierError)
   \<and> length (schedule num_runs test_size_values one_dataset) = 18"
proof -
  have r: "randint failing_ext = (\<lambda>n. n)" by (simp add: failing_ext_def)
  have "evaluation_sweep failing_ext one_dataset =
     (\<lparr>accuracies = [(''test_size'', map Fin test_size_values)],
       all_acc_dataset = [Fin 100], acc = [Fin 100], rng = 5, pbar = 4\<rparr>,
      Some ExternalClassifierError)"
    unfolding evaluation_sweep_def one_dataset_def sweep_init_def num_runs_def
    by (simp add: truth_labels_of_def image_data_of_def test_size_values_def
        run_loop.simps failing_ext_trial r np_average_def)
  then show ?thesis using length_schedule_one by simp
qed


text \<open>
  Claim C6, as the code has it. An exception of the classifier leaves \<open>run_classifier\<close>
  as it is. When the \<open>k\<close>-th trial of the schedule is the first to fail, with error
  \<open>e\<close>, the sweep ends with \<open>e\<close>: exactly \<open>k + 1\<close> trials have been started, so
  that no later trial runs, and \<open>k\<close> completed. The variables then hold the accuracies
  of the \<open>k\<close> completed trials and nothing else. Cut in the order of the schedule into
  groups of \<open>runs\<close> accuracies, one group for each test size, they are: for each
  dataset already finished, the groups \<open>cgs\<close> of its test sizes, whose averages are its
  column in \<open>accuracies\<close> under its name; the groups \<open>gs\<close> of the test sizes already
  finished for the current dataset, whose averages are \<open>all_acc_dataset\<close>; and the
  accuracies of the repeats already finished for the current test size, which are
  \<open>acc\<close>. Nothing is recorded for the failing trial.
\<close>

theorem C6_first_failure_stops_sweep:
  "(train_test_split ext image_data truth_labels test_size state
        = Inr (X_train, X_test, y_train, y_test)
      \<and> do_classify ext X_test X_train (generate_onehot_value y_train) 30 = Inl e0 \<longrightarrow>
      run_classifier ext image_data truth_labels test_size state = Inl e0)
   \<and> ((\<forall>d\<in>set data_files. columns (fst d) \<noteq> [])
        \<and> k < length (schedule runs sizes data_files)
        \<and> (\<forall>j<k. \<exists>a. outcome ext (rng s) (schedule runs sizes data_files) j = Inr a)
        \<and> outcome ext (rng s) (schedule runs sizes data_files) k = Inl e \<longrightarrow>
      (\<exists>s'. data_loop ext runs sizes data_files s = (s', Some e)
          \<and> rng s' = rng s + k + 1
          \<and> pbar s' = pbar s + k
          \<and> (\<exists>cgs gs.
                length cgs < length data_files \<and> length gs < length sizes \<and> length (acc s') < runs
              \<and> (\<forall>cg\<in>set cgs. length cg = length sizes \<and> (\<forall>g\<in>set cg. length g = runs))
              \<and> (\<forall>g\<in>set gs. length g = runs)
              \<and> k = runs * (length sizes * length cgs + length gs) + length (acc s')
              \<and> (\<forall>j<k. outcome ext (rng s) (schedule runs sizes data_files) j
                          = Inr ((concat (map concat cgs) @ concat gs @ acc s') ! j))
              \<and> accuracies s' = accuracies s
                   @ zip (map snd (take (length cgs) data_files)) (map (map np_average) cgs)
              \<and> all_acc_dataset s' = map np_average gs)))"
proof (rule conjI)
  show "train_test_split ext image_data truth_labels test_size state
        = Inr (X_train, X_test, y_train, y_test)
      \<and> do_classify ext X_test X_train (generate_onehot_value y_train) 30 = Inl e0 \<longrightarrow>
      run_classifier ext image_data truth_labels test_size state = Inl e0"
    using run_classifier_propagates by blast
next
  show "(\<forall>d\<in>set data_files. columns (fst d) \<noteq> [])
        \<and> k < length (schedule runs sizes data_files)
        \<and> (\<forall>j<k. \<exists>a. outcome ext (rng s) (schedule runs sizes data_files) j = Inr a)
        \<and> outcome ext (rng s) (schedule runs sizes data_files) k = Inl e \<longrightarrow>
      (\<exists>s'. data_loop ext runs sizes data_files s = (s', Some e)
          \<and> rng s' = rng s + k + 1
          \<and> pbar s' = pbar s + k
          \<and> (\<exists>cgs gs.
                length cgs < length data_files \<and> length gs < length sizes \<and> length (acc s') < runs
              \<and> (\<forall>cg\<in>set cgs. length cg = length sizes \<and> (\<forall>g\<in>set cg. length g = runs))
              \<and> (\<forall>g\<in>set gs. length g = runs)
              \<and> k = runs * (length sizes * length cgs + length gs) + length (acc s')
              \<and> (\<forall>j<k. outcome ext (rng s) (schedule runs sizes data_files) j
                          = Inr ((concat (map concat cgs) @ concat gs @ acc s') ! j))
              \<and> accuracies s' = accuracies s
                   @ zip (map snd (take (length cgs) data_files)) (map (map np_average) cgs)
              \<and> all_acc_dataset s' = map np_average gs))"
  proof
    assume h: "(\<forall>d\<in>set data_files. columns (fst d) \<noteq> [])
        \<and> k < length (schedule runs sizes data_files)
        \<and> (\<forall>j<k. \<exists>a. outcome ext (rng s) (schedule runs sizes data_files) j = Inr a)
        \<and> outcome ext (rng s) (schedule runs sizes data_files) k = Inl e"
    let ?sched = "schedule runs sizes data_files"
    obtain s' r where dl: "data_loop ext runs sizes data_files s = (s', r)" by force
    from h have cols: "\<forall>d\<in>set data_files. columns (fst d) \<noteq> []"
      and kl: "k < length ?sched"
      and ok: "\<forall>j<k. \<exists>a. outcome ext (rng s) ?sched j = Inr a"
      and bad: "outcome ext (rng s) ?sched k = Inl e" by blast+
    note f = data_loop_flat [OF dl cols]
    have "run_trials ext ?sched (rng s) = (rng s + k + 1, Some e)"
      using kl ok bad by (rule run_trials_first_failure)
    with f have r: "r = Some e" and g: "rng s' = rng s + k + 1" by simp_all
    from f r have g2: "rng s' = rng s + (pbar s' - pbar s) + 1" and le: "pbar s \<le> pbar s'"
      by simp_all
    from g g2 le have p: "pbar s' = pbar s + k" by simp
    from f r obtain c a b cols where x: "c < length data_files" "a < length sizes" "b < runs"
      "pbar s' = pbar s + runs * (length sizes * c + a) + b"
      "accuracies s' = accuracies s @ cols" "map fst cols = map snd (take c data_files)"
      "length (all_acc_dataset s') = a" "length (acc s') = b"
      by auto
    from data_loop_values [OF dl cols] r obtain cgs gs where v:
      "length cgs \<le> length data_files"
      "\<forall>cg\<in>set cgs. length cg = length sizes \<and> (\<forall>g\<in>set cg. length g = runs)"
      "\<forall>g\<in>set gs. length g = runs"
      "accuracies s' = accuracies s
             @ zip (map snd (take (length cgs) data_files)) (map (map np_average) cgs)"
      "all_acc_dataset s' = map np_average gs"
      "trial_values ext ?sched (rng s) = concat (map concat cgs) @ concat gs @ acc s'"
      by auto
    have "length cols = length (map fst cols)" by simp
    also have "\<dots> = c" unfolding x(6) using x(1) by simp
    finally have lc: "length cols = c" .
    have "cols = zip (map snd (take (length cgs) data_files)) (map (map np_average) cgs)"
      using x(5) v(4) by simp
    then have "length cols = length cgs" using v(1) by simp
    with lc have c: "length cgs = c" by simp
    have a: "length gs = a" using x(7) v(5) by simp
    have kk: "k = runs * (length sizes * length cgs + length gs) + length (acc s')"
      using x(4) p c a x(8) by simp
    from trial_values_first_failure [OF kl ok bad]
    have vals: "\<forall>j<k. outcome ext (rng s) ?sched j
                 = Inr ((concat (map concat cgs) @ concat gs @ acc s') ! j)"
      unfolding v(6) by blast
    have "\<exists>cgs gs.
                length cgs < length data_files \<and> length gs < length sizes \<and> length (acc s') < runs
              \<and> (\<forall>cg\<in>set cgs. length cg = length sizes \<and> (\<forall>g\<in>set cg. length g = runs))
              \<and> (\<forall>g\<in>set gs. length g = runs)
              \<and> k = runs * (length sizes * length cgs + length gs) + length (acc s')
              \<and> (\<forall>j<k. outcome ext (rng s) (schedule runs sizes data_files) j
                          = Inr ((concat (map concat cgs) @ concat gs @ acc s') ! j))
              \<and> accuracies s' = accuracies s
                   @ zip (map snd (take (length cgs) data_files)) (map (map np_average) cgs)
              \<and> all_acc_dataset s' = map np_average gs"
      using c a x(1,2,3,8) v(2,3,4,5) kk vals by blast
    with dl r g p show "(\<exists>s'. data_loop ext runs sizes data_files s = (s', Some e)
          \<and> rng s' = rng s + k + 1
          \<and> pbar s' = pbar s + k
          \<and> (\<exists>cgs gs.
                length cgs < length data_files \<and> length gs < length sizes \<and> length (acc s') < runs
              \<and> (\<forall>cg\<in>set cgs. length cg = length sizes \<and> (\<forall>g\<in>set cg. length g = runs))
              \<and> (\<forall>g\<in>set gs. length g = runs)
              \<and> k = runs * (length sizes * length cgs + length gs) + length (acc s')
              \<and> (\<forall>j<k. outcome ext (rng s) (schedule runs sizes data_files) j
                          = Inr ((concat (map concat cgs) @ concat gs @ acc s') ! j))
              \<and> accuracies s' = accuracies s
                   @ zip (map snd (take (length cgs) data_files)) (map (map np_average) cgs)
              \<and> all_acc_dataset s' = map np_average gs))" by blast
  qed
qed

theorem C6_first_failure_stops_sweep_witness:
  "run_classifier failing_ext [[Fin 5]] [Fin 1] 0.25 4 = Inl ExternalClassifierError
   \<and> (\<exists>s'. evaluation_sweep failing_ext one_dataset = (s', Some ExternalClassifierError)
         \<and> rng s' = 5 \<and> pbar s' = 4
         \<and> (\<exists>cgs gs.
                length cgs < length one_dataset \<and> length gs < length test_size_values
              \<and> length (acc s') < num_runs
              \<and> (\<forall>cg\<in>set cgs. length cg = length test_size_values \<and> (\<forall>g\<in>set cg. length g = num_runs))
              \<and> (\<forall>g\<in>set gs. length g = num_runs)
              \<and> 4 = num_runs * (length test_size_values * length cgs + length gs) + length (acc s')
              \<and> (\<forall>j<4. outcome failing_ext (rng sweep_init) (schedule num_runs test_size_values one_dataset) j
                          = Inr ((concat (map concat cgs) @ concat gs @ acc s') ! j))
              \<and> accuracies s' = accuracies sweep_init
                   @ zip (map snd (take (length cgs) one_dataset)) (map (map np_average) cgs)
              \<and> all_acc_dataset s' = map np_average gs))"
proof -
  let ?sched = "schedule num_runs test_size_values one_dataset"
  have tts: "train_test_split failing_ext [[Fin 5]] [Fin 1] 0.25 4
        = Inr ([[Fin 4]], [[Fin 0]], [Fin 0], [Fin 0])
      \<and> do_classify failing_ext [[Fin 0]] [[Fin 4]] (generate_onehot_value [Fin 0]) 30
           = Inl ExternalClassifierError"
    by (simp add: failing_ext_def)
  have h: "(\<forall>d\<in>set one_dataset. columns (fst d) \<noteq> [])
        \<and> 4 < length ?sched
        \<and> (\<forall>j<4. \<exists>a. outcome failing_ext (rng sweep_init) ?sched j = Inr a)
        \<and> outcome failing_ext (rng sweep_init) ?sched 4 = Inl ExternalClassifierError"
    by (simp add: length_schedule_one failing_ext_outcome sweep_init_def) (simp add: one_dataset_def)
  note c = C6_first_failure_stops_sweep [of failing_ext "[[Fin 5]]" "[Fin 1]" "0.25" 4 "[[Fin 4]]" "[[Fin 0]]" "[Fin 0]" "[Fin 0]"
      ExternalClassifierError one_dataset 4 num_runs test_size_values sweep_init ExternalClassifierError]
  have a: "run_classifier failing_ext [[Fin 5]] [Fin 1] 0.25 4 = Inl ExternalClassifierError"
    using c [THEN conjunct1, THEN mp, OF tts] .
  from c [THEN conjunct2, THEN mp, OF h] obtain s' where
    s': "data_loop failing_ext num_runs test_size_values one_dataset sweep_init
           = (s', Some ExternalClassifierError)"
        "rng s' = rng sweep_init + 4 + 1" "pbar s' = pbar sweep_init + 4"
        "\<exists>cgs gs.
                length cgs < length one_dataset \<and> length gs < length test_size_values
              \<and> length (acc s') < num_runs
              \<and> (\<forall>cg\<in>set cgs. length cg = length test_size_values \<and> (\<forall>g\<in>set cg. length g = num_runs))
              \<and> (\<forall>g\<in>set gs. length g = num_runs)
              \<and> 4 = num_runs * (length test_size_values * length cgs + length gs) + length (acc s')
              \<and> (\<forall>j<4. outcome failing_ext (rng sweep_init) (schedule num_runs test_size_values one_dataset) j
                          = Inr ((concat (map concat cgs) @ concat gs @ acc s') ! j))
              \<and> accuracies s' = accuracies sweep_init
                   @ zip (map snd (take (length cgs) one_dataset)) (map (map np_average) cgs)
              \<and> all_acc_dataset s' = map np_average gs"
    by blast
  have b: "\<exists>s'. evaluation_sweep failing_ext one_dataset = (s', Some ExternalClassifierError)
         \<and> rng s' = 5 \<and> pbar s' = 4
         \<and> (\<exists>cgs gs.
                length cgs < length one_dataset \<and> length gs < length test_size_values
              \<and> length (acc s') < num_runs
              \<and> (\<forall>cg\<in>set cgs. length cg = length test_size_values \<and> (\<forall>g\<in>set cg. length g = num_runs))
              \<and> (\<forall>g\<in>set gs. length g = num_runs)
              \<and> 4 = num_runs * (length test_size_values * length cgs + length gs) + length (acc s')
              \<and> (\<forall>j<4. outcome failing_ext (rng sweep_init) (schedule num_runs test_size_values one_dataset) j
                          = Inr ((concat (map concat cgs) @ concat gs @ acc s') ! j))
              \<and> accuracies s' = accuracies sweep_init
                   @ zip (map snd (take (length cgs) one_dataset)) (map (map np_average) cgs)
              \<and> all_acc_dataset s' = map np_average gs)"
  proof (intro exI [of _ s'] conjI)
    show "evaluation_sweep failing_ext one_dataset = (s', Some ExternalClassifierError)"
      using s'(1) by (simp add: evaluation_sweep_def)
    show "rng s' = 5" using s'(2) by (simp add: sweep_init_def)
    show "pbar s' = 4" using s'(3) by (simp add: sweep_init_def)
    show "\<exists>cgs gs.
                length cgs < length one_dataset \<and> length gs < length test_size_values
              \<and> length (acc s') < num_runs
              \<and> (\<forall>cg\<in>set cgs. length cg = length test_size_values \<and> (\<forall>g\<in>set cg. length g = num_runs))
              \<and> (\<forall>g\<in>set gs. length g = num_runs)
              \<and> 4 = num_runs * (length test_size_values * length cgs + length gs) + length (acc s')
              \<and> (\<forall>j<4. outcome failing_ext (rng sweep_init) (schedule num_runs test_size_values one_dataset) j
                          = Inr ((concat (map concat cgs) @ concat gs @ acc s') ! j))
              \<and> accuracies s' = accuracies sweep_init
                   @ zip (map snd (take (length cgs) one_dataset)) (map (map np_average) cgs)
              \<and> all_acc_dataset s' = map np_average gs"
      using s'(4) .
  qed
  from a b show ?thesis by (rule conjI)
qed

end
